theory Spec2Isabelle
  imports Complex_Main
begin

section \<open>Data model of the platformer (types.ts, constants.ts)\<close>

text \<open>
  The game keeps every coordinate, velocity and score in a JavaScript number.  The
  embedding takes these numbers as exact reals: the rounding of IEEE doubles, NaN and the
  infinities are outside the model.  Counters that only ever hold whole numbers
  (coyote timer, jump buffer, jump count) are integers; identifiers are naturals.

  The interfaces of types.ts are records.  TypeScript types are structural, so the
  \<open>{x, y}\<close> objects (camera, last checkpoint) are the base record, and \<open>Entity\<close>,
  \<open>Player\<close>, \<open>Platform\<close>, \<open>Orb\<close> and the enemy state extend it.
\<close>

datatype game_state = START | PLAYING | PAUSED | GRAVE | VICTORY

datatype modal_state = NONE | LORE | QUIZ

datatype grave_result = Correct | Incorrect

datatype platform_type = Floor | Platform | Rubble | Gate | Grave | Stair

datatype enemy_type = Jubela | Jubelo | Jubelum

datatype category = Review | Ritual | Working_tools

datatype js_error = TypeError

record point =
  x :: real
  y :: real

record entity = point +
  width :: real
  height :: real

record player = entity +
  vx :: real
  vy :: real
  isGrounded :: bool
  facing :: real
  jumpCount :: int
  coyoteTimer :: int

record platform = entity +
  color :: string
  ptype :: "platform_type option"

record question =
  q_id :: nat
  q_text :: string
  answers :: "string list"
  correctAnswer :: string
  explanation :: "string option"
  q_category :: "category option"

record orb = point +
  orb_id :: nat
  radius :: real
  active :: bool
  questionId :: "nat option"
  name :: string
  spriteKey :: string
  blurb :: string
  points :: "real option"

record orb_definition =
  od_id :: nat
  od_x :: real
  od_yOffset :: real
  od_radius :: real
  od_questionId :: "nat option"
  od_name :: string
  od_spriteKey :: string
  od_blurb :: string
  od_points :: "real option"

record enemy_definition =
  ed_x :: real
  ed_yOffset :: real
  ed_minX :: real
  ed_maxX :: real
  ed_speed :: real
  ed_type :: enemy_type

text \<open>\<open>EnemyState = Enemy & {dir, width, height}\<close> of GameCanvas.\<close>

record enemy_state = entity +
  minX :: real
  maxX :: real
  speed :: real
  etype :: enemy_type
  dir :: real

record checkpoint =
  cp_x :: real
  cp_yOffset :: real

record platform_definition =
  pd_x :: real
  pd_yOffset :: real
  pd_width :: real
  pd_height :: real
  pd_color :: string
  pd_type :: "platform_type option"

record bounds =
  minY :: real
  maxY :: real

record dims =
  dim_w :: real
  dim_h :: real

text \<open>One call of the leaderboard client: \<open>submitScore(name, score, completed, userId)\<close>.\<close>

record submission =
  sub_name :: string
  sub_score :: real
  sub_completed :: bool
  sub_userId :: "string option"

subsection \<open>Tuning constants and level tables\<close>

definition GRAVITY :: real where "GRAVITY = 0.45"
definition FRICTION :: real where "FRICTION = 0.84"
definition MOVE_SPEED :: real where "MOVE_SPEED = 4.6"
definition JUMP_FORCE :: real where "JUMP_FORCE = - 11.5"
definition WORLD_WIDTH :: real where "WORLD_WIDTH = 5200"
definition DESIGN_HEIGHT :: real where "DESIGN_HEIGHT = 360"
definition GOAL_X :: real where "GOAL_X = 4800"
definition GOAL_Y_OFFSET :: real where "GOAL_Y_OFFSET = - 40"

text \<open>\<open>const groundRefY = DESIGN_HEIGHT - 40\<close>, recomputed wherever it is used.\<close>

definition groundRefY :: real where "groundRefY = DESIGN_HEIGHT - 40"

definition INDIGO :: string where "INDIGO = ''#1b2440''"
definition SILVER :: string where "SILVER = ''#c0c7d1''"
definition GOLD :: string where "GOLD = ''#c8a24a''"
definition ASH :: string where "ASH = ''#3b3f4a''"
definition MOURNING :: string where "MOURNING = ''#121521''"

definition CHECKPOINTS :: "checkpoint list" where
  "CHECKPOINTS =
    [\<lparr>cp_x = 140, cp_yOffset = 0\<rparr>,
     \<lparr>cp_x = 1100, cp_yOffset = 0\<rparr>,
     \<lparr>cp_x = 1950, cp_yOffset = - 240\<rparr>,
     \<lparr>cp_x = 2600, cp_yOffset = 120\<rparr>,
     \<lparr>cp_x = 3200, cp_yOffset = 0\<rparr>,
     \<lparr>cp_x = 4200, cp_yOffset = - 140\<rparr>]"

definition pdef :: "real \<Rightarrow> real \<Rightarrow> real \<Rightarrow> real \<Rightarrow> string \<Rightarrow> platform_type \<Rightarrow> platform_definition" where
  "pdef px po pw ph c t =
     \<lparr>pd_x = px, pd_yOffset = po, pd_width = pw, pd_height = ph, pd_color = c, pd_type = Some t\<rparr>"

definition PLATFORM_DATA :: "platform_definition list" where
  "PLATFORM_DATA =
    [pdef 0 0 900 90 INDIGO Floor,
     pdef 1020 0 620 90 INDIGO Floor,
     pdef 1700 0 280 90 INDIGO Floor,
     pdef 2800 0 620 90 INDIGO Floor,
     pdef 3600 0 520 90 INDIGO Floor,
     pdef 4500 0 520 90 INDIGO Floor,
     pdef 200 (- 60) 90 16 ASH Rubble,
     pdef 360 (- 120) 110 16 ASH Rubble,
     pdef 520 (- 70) 90 16 ASH Rubble,
     pdef 700 (- 140) 120 16 ASH Rubble,
     pdef 1500 (- 40) 120 16 SILVER Stair,
     pdef 1600 (- 90) 120 16 SILVER Stair,
     pdef 1700 (- 140) 120 16 SILVER Stair,
     pdef 1800 (- 190) 120 16 SILVER Stair,
     pdef 1900 (- 240) 140 16 SILVER Stair,
     pdef 2020 (- 260) 220 20 SILVER Platform,
     pdef 2200 200 520 90 MOURNING Grave,
     pdef 2320 140 120 16 ASH Platform,
     pdef 2450 90 120 16 ASH Platform,
     pdef 2580 40 120 16 ASH Platform,
     pdef 2720 0 140 16 ASH Platform,
     pdef 3000 (- 60) 140 16 SILVER Stair,
     pdef 3120 (- 110) 140 16 SILVER Stair,
     pdef 3260 (- 160) 160 16 SILVER Stair,
     pdef 3700 (- 70) 200 16 ASH Platform,
     pdef 3950 (- 130) 200 16 ASH Platform,
     pdef 4200 (- 70) 200 16 ASH Platform,
     pdef 4400 (- 170) 220 16 ASH Platform,
     pdef 4700 (- 40) 200 18 GOLD Platform]"

definition mk_question :: "nat \<Rightarrow> string \<Rightarrow> string list \<Rightarrow> string \<Rightarrow> category \<Rightarrow> question" where
  "mk_question i t as c cat =
     \<lparr>q_id = i, q_text = t, answers = as, correctAnswer = c,
      explanation = None, q_category = Some cat\<rparr>"

definition REVIEW_QUESTIONS :: "question list" where
  "REVIEW_QUESTIONS =
    [mk_question 1 ''What are the working tools of a Master Mason?''
       [''The Skirret, the Pencil, and the Compasses.'',
        ''The Square, the Level, and the Plumb Rule.'',
        ''The 24 inch gauge and the common gavel.'']
       ''The Skirret, the Pencil, and the Compasses.'' Review,
     mk_question 2 ''To what do the working tools of a Master Mason allude?''
       [''To morality and the Divine Creator.'',
        ''To the Middle Chamber and its wages.'',
        ''To the pillars of Strength and Establishment.'']
       ''To morality and the Divine Creator.'' Review,
     mk_question 3 ''What are the ornaments of a Master Mason Lodge?''
       [''The Porch, the Dormer, and the Square Pavement.'',
        ''The Mosaic Pavement, the Blazing Star, and the Border.'',
        ''The Pillars, the Winding Staircase, and the Middle Chamber.'']
       ''The Porch, the Dormer, and the Square Pavement.'' Review,
     mk_question 4 ''How many constitute a Lodge of Master Masons?''
       [''Three.'', ''Five.'', ''Seven.'']
       ''Three.'' Review,
     mk_question 5 ''What are the Five Points of Fellowship?''
       [''Hand to hand, foot to foot, knee to knee, breast to breast, hand over back.'',
        ''Hand to hand, arm to arm, knee to knee, cheek to cheek, hand over heart.'',
        ''Hand to hand, foot to foot, knee to knee, shoulder to shoulder, hand over head.'']
       ''Hand to hand, foot to foot, knee to knee, breast to breast, hand over back.'' Review]"

definition QUESTIONS :: "question list" where
  "QUESTIONS =
    [mk_question 101 ''What is the peculiar object of the Third Degree?''
       [''To teach us how to die and the knowledge of oneself.'',
        ''To reveal the hidden mysteries of nature and science.'',
        ''To explain the wages of the Middle Chamber.'']
       ''To teach us how to die and the knowledge of oneself.'' Ritual,
     mk_question 102 ''How were you prepared for the Third Degree?''
       [''Both arms, both breasts, both knees bare, both heels slipshod.'',
        ''Both arms bare, left breast bare, right heel slipshod.'',
        ''Left arm and right knee bare, hoodwinked, with a cable tow twice around.'']
       ''Both arms, both breasts, both knees bare, both heels slipshod.'' Ritual,
     mk_question 103 ''What do the three steps consist of?''
       [''The first three as if stepping over a grave.'',
        ''The three principal officers of a lodge.'',
        ''The three great supports of Masonry.'']
       ''The first three as if stepping over a grave.'' Ritual,
     mk_question 104 ''The Skirret points out''
       [''The straight and undeviating line of conduct.'',
        ''The level of equality among mankind.'',
        ''The uprightness of life and actions.'']
       ''The straight and undeviating line of conduct.'' Working_tools,
     mk_question 105 ''The Pencil teaches us''
       [''That our words and actions are recorded by the Almighty Architect.'',
        ''That time is measured in equal parts.'',
        ''That wisdom is gained through silence.'']
       ''That our words and actions are recorded by the Almighty Architect.'' Working_tools,
     mk_question 106 ''The Compasses remind us of''
       [''Unerring and impartial justice.'',
        ''The limits of earthly desires.'',
        ''The equality of all men in the lodge.'']
       ''Unerring and impartial justice.'' Working_tools]"

definition ORB_DATA :: "orb_definition list" where
  "ORB_DATA =
    [\<lparr>od_id = 1, od_x = 1180, od_yOffset = - 20, od_radius = 18, od_questionId = Some 1,
      od_name = ''Skirret'', od_spriteKey = ''skirret'',
      od_blurb = ''The Skirret draws the straight and undeviating line of conduct.'',
      od_points = Some 150\<rparr>,
     \<lparr>od_id = 2, od_x = 1880, od_yOffset = - 220, od_radius = 18, od_questionId = Some 2,
      od_name = ''Pencil'', od_spriteKey = ''pencil'',
      od_blurb = ''The Pencil records our work in the Book of Life.'',
      od_points = Some 150\<rparr>,
     \<lparr>od_id = 3, od_x = 3120, od_yOffset = - 20, od_radius = 18, od_questionId = Some 3,
      od_name = ''Compasses'', od_spriteKey = ''compasses'',
      od_blurb = ''The Compasses keep our passions within due bounds.'',
      od_points = Some 150\<rparr>,
     \<lparr>od_id = 4, od_x = 4150, od_yOffset = - 150, od_radius = 18, od_questionId = None,
      od_name = ''Sprig of Acacia'', od_spriteKey = ''acacia'',
      od_blurb = ''The acacia marks the place of fidelity and hope beyond the grave.'',
      od_points = Some 250\<rparr>]"

definition REQUIRED_TOOL_IDS :: "nat list" where
  "REQUIRED_TOOL_IDS = [1, 2, 3]"

definition ENEMY_DATA :: "enemy_definition list" where
  "ENEMY_DATA =
    [\<lparr>ed_x = 1200, ed_yOffset = 0, ed_minX = 1050, ed_maxX = 1500, ed_speed = 1.1, ed_type = Jubela\<rparr>,
     \<lparr>ed_x = 1850, ed_yOffset = - 230, ed_minX = 1700, ed_maxX = 2050, ed_speed = 0.9, ed_type = Jubelo\<rparr>,
     \<lparr>ed_x = 3100, ed_yOffset = 0, ed_minX = 2950, ed_maxX = 3400, ed_speed = 1.6, ed_type = Jubelum\<rparr>]"

section \<open>The GameCanvas component (patrol variant)\<close>

text \<open>
  The component keeps part of its state in React state variables (\<open>useState\<close>) and the
  rest in mutable refs (\<open>useRef\<close>); one record holds both.  A state setter takes effect
  in the model at once: no handler reads a state variable after setting it, so this is
  what the next render sees.  The two props the simulation reads (\<open>userId\<close>,
  \<open>userName\<close>) and the window size are fields as well, and \<open>submitted\<close> logs the calls
  of the leaderboard client in the order they are made.
\<close>

record game =
  gameState :: game_state
  modalState :: modal_state
  activeOrb :: "orb option"
  activeQuestion :: "question option"
  graveQuestion :: "question option"
  graveAnswers :: "string list"
  graveResult :: "grave_result option"
  score :: real
  collectedIds :: "nat set"
  warningMessage :: "string option"
  scoreRef :: real
  collectedRef :: "nat set"
  seenLoreRef :: "string set"
  keysRef :: "string \<rightharpoonup> bool"
  jumpBufferRef :: int
  lastCheckpointRef :: point
  cameraRef :: point
  platformsRef :: "platform list"
  enemiesRef :: "enemy_state list"
  boundsRef :: bounds
  playerRef :: player
  dimensions :: dims
  userId :: "string option"
  userName :: "string option"
  submitted :: "submission list"

text \<open>
  What one frame takes from outside the component: whether the canvas and its 2d context
  exist, the value \<open>Math.random()\<close> returns in \<open>pickGraveQuestion\<close>, and the order in
  which \<open>shuffleAnswers\<close> (a sort with a random comparator) leaves a list.
\<close>

record frame_env =
  canvas_ok :: bool
  rnd :: real
  shuffled :: "string list \<Rightarrow> string list"

subsection \<open>JavaScript truthiness\<close>

definition truthy_str :: "string option \<Rightarrow> bool" where
  "truthy_str v = (case v of None \<Rightarrow> False | Some t \<Rightarrow> t \<noteq> [])"

definition truthy_num :: "nat option \<Rightarrow> bool" where
  "truthy_num v = (case v of None \<Rightarrow> False | Some n \<Rightarrow> n \<noteq> 0)"

definition key_down :: "(string \<rightharpoonup> bool) \<Rightarrow> string \<Rightarrow> bool" where
  "key_down keys k = (keys k = Some True)"

subsection \<open>Initial values and the mount effects\<close>

definition initial_player :: player where
  "initial_player =
     \<lparr>x = 60, y = DESIGN_HEIGHT - 140, width = 30, height = 44, vx = 0, vy = 0,
      isGrounded = False, facing = 1, jumpCount = 0, coyoteTimer = 0\<rparr>"

definition initial_platforms :: "platform list" where
  "initial_platforms =
     map (\<lambda>p. \<lparr>x = pd_x p, y = groundRefY + pd_yOffset p, width = pd_width p,
               height = pd_height p, color = pd_color p, ptype = pd_type p\<rparr>) PLATFORM_DATA"

definition initial_bounds :: "platform list \<Rightarrow> bounds" where
  "initial_bounds ps =
     \<lparr>minY = Min (set (map y ps)) - 200,
      maxY = Max (set (map (\<lambda>p. y p + height p) ps)) - DESIGN_HEIGHT + 200\<rparr>"

definition initial_enemies :: "enemy_state list" where
  "initial_enemies =
     map (\<lambda>e. \<lparr>x = ed_x e, y = groundRefY + ed_yOffset e - 44, width = 32, height = 44,
               minX = ed_minX e, maxX = ed_maxX e, speed = ed_speed e, etype = ed_type e,
               dir = 1\<rparr>) ENEMY_DATA"

definition initializeEnemies :: "game \<Rightarrow> game" where
  "initializeEnemies s = s\<lparr>enemiesRef := initial_enemies\<rparr>"

text \<open>The state after the first render and the effects that run once on mount.\<close>

definition mounted :: "dims \<Rightarrow> string option \<Rightarrow> string option \<Rightarrow> game" where
  "mounted d uid uname =
     \<lparr>gameState = START, modalState = NONE, activeOrb = None, activeQuestion = None,
      graveQuestion = None, graveAnswers = [], graveResult = None, score = 0,
      collectedIds = {}, warningMessage = None, scoreRef = 0, collectedRef = {},
      seenLoreRef = {}, keysRef = Map.empty, jumpBufferRef = 0,
      lastCheckpointRef = \<lparr>x = 60, y = DESIGN_HEIGHT - 140\<rparr>,
      cameraRef = \<lparr>x = 0, y = 0\<rparr>,
      platformsRef = initial_platforms, enemiesRef = initial_enemies,
      boundsRef = initial_bounds initial_platforms,
      playerRef = initial_player, dimensions = d, userId = uid, userName = uname,
      submitted = []\<rparr>"

subsection \<open>Reset, respawn and death\<close>

definition resetPlayer :: "real \<Rightarrow> real \<Rightarrow> game \<Rightarrow> game" where
  "resetPlayer px py s =
     s\<lparr>playerRef := (playerRef s)\<lparr>x := px, y := py, vx := 0, vy := 0, isGrounded := False,
                                   jumpCount := 0, coyoteTimer := 0\<rparr>\<rparr>"

definition resetGame :: "bool \<Rightarrow> game \<Rightarrow> game" where
  "resetGame toMenu s =
     (let s1 = resetPlayer 60 (groundRefY - 100) s;
          s2 = s1\<lparr>cameraRef := \<lparr>x = 0, y = 0\<rparr>,
                  lastCheckpointRef := \<lparr>x = 60, y = groundRefY - 100\<rparr>,
                  collectedRef := {}, seenLoreRef := {}, collectedIds := {},
                  scoreRef := 0, score := 0,
                  activeOrb := None, activeQuestion := None,
                  graveQuestion := None, graveResult := None,
                  warningMessage := None, modalState := NONE\<rparr>;
          s3 = initializeEnemies s2
      in s3\<lparr>gameState := (if toMenu then START else PLAYING)\<rparr>)"

definition respawnAtCheckpoint :: "game \<Rightarrow> game" where
  "respawnAtCheckpoint s =
     (let cp = lastCheckpointRef s
      in (resetPlayer (x cp) (y cp) s)
           \<lparr>gameState := PLAYING, graveQuestion := None, graveResult := None\<rparr>)"

text \<open>
  \<open>QUESTIONS[Math.floor(Math.random() * QUESTIONS.length)]\<close>: an index outside the
  table reads \<open>undefined\<close>.
\<close>

definition pickGraveQuestion :: "frame_env \<Rightarrow> question option" where
  "pickGraveQuestion env =
     (let i = \<lfloor>rnd env * real (length QUESTIONS)\<rfloor>
      in if 0 \<le> i \<and> i < int (length QUESTIONS) then Some (QUESTIONS ! nat i) else None)"

text \<open>
  \<open>handleDeath\<close> reads \<open>question.answers\<close>; on \<open>undefined\<close> that is a TypeError.
\<close>

definition handleDeath :: "frame_env \<Rightarrow> game \<Rightarrow> js_error + game" where
  "handleDeath env s =
     (if gameState s \<noteq> PLAYING then Inr s
      else case pickGraveQuestion env of
             None \<Rightarrow> Inl TypeError
           | Some q \<Rightarrow>
               Inr (s\<lparr>graveQuestion := Some q,
                      graveAnswers := shuffled env (answers q),
                      graveResult := None,
                      keysRef := Map.empty,
                      playerRef := (playerRef s)\<lparr>vx := 0, vy := 0\<rparr>,
                      gameState := GRAVE\<rparr>))"

subsection \<open>Orbs, lore and quiz\<close>

definition collectOrb :: "orb \<Rightarrow> game \<Rightarrow> game" where
  "collectOrb ob s =
     (let collected = insert (orb_id ob) (collectedRef s);
          pts = (case points ob of None \<Rightarrow> 100 | Some v \<Rightarrow> v);
          next = score s + pts
      in s\<lparr>collectedRef := collected, collectedIds := collected,
            score := next, scoreRef := next,
            activeOrb := None, activeQuestion := None, modalState := NONE\<rparr>)"

definition handleLoreContinue :: "game \<Rightarrow> game" where
  "handleLoreContinue s =
     (case activeOrb s of
        None \<Rightarrow> s\<lparr>modalState := NONE\<rparr>
      | Some ob \<Rightarrow>
          (let s1 = s\<lparr>seenLoreRef := insert (spriteKey ob) (seenLoreRef s)\<rparr>
           in if truthy_num (questionId ob)
              then (case find (\<lambda>q. Some (q_id q) = questionId ob) REVIEW_QUESTIONS of
                      Some q \<Rightarrow> s1\<lparr>activeQuestion := Some q, modalState := QUIZ\<rparr>
                    | None \<Rightarrow> collectOrb ob s1)
              else collectOrb ob s1))"

definition handleQuizCorrect :: "game \<Rightarrow> game" where
  "handleQuizCorrect s = (case activeOrb s of None \<Rightarrow> s | Some ob \<Rightarrow> collectOrb ob s)"

definition handleQuizIncorrect :: "game \<Rightarrow> game" where
  "handleQuizIncorrect s =
     s\<lparr>activeQuestion := None, activeOrb := None, modalState := NONE,
       warningMessage := Some ''Fidelity falters. The tool remains in shadow.''\<rparr>"

subsection \<open>The grave overlay\<close>

text \<open>
  The overlay is rendered while the state is GRAVE and a grave question is set.  Its
  answer buttons exist while no result is recorded; the button of the incorrect branch
  (\<open>Begin Again\<close>) calls \<open>resetGame(false)\<close>, the one of the correct branch
  (\<open>Return to the Work\<close>) calls \<open>respawnAtCheckpoint\<close>.  A click on a button that is
  not rendered cannot happen and leaves the state as it is.  When the overlay opens, an
  effect shuffles the answers once more and clears the result that \<open>handleDeath\<close> has
  just cleared; the order of the answers is display only, and the model keeps the order
  \<open>handleDeath\<close> chose.
\<close>

definition grave_answer_click :: "string \<Rightarrow> game \<Rightarrow> game" where
  "grave_answer_click answer s =
     (if gameState s = GRAVE \<and> graveResult s = None
      then (case graveQuestion s of
              None \<Rightarrow> s
            | Some q \<Rightarrow>
                if answer = correctAnswer q then s\<lparr>graveResult := Some Correct\<rparr>
                else s\<lparr>graveResult := Some Incorrect\<rparr>)
      else s)"

definition grave_begin_again_click :: "game \<Rightarrow> game" where
  "grave_begin_again_click s =
     (if gameState s = GRAVE \<and> graveQuestion s \<noteq> None \<and> graveResult s = Some Incorrect
      then resetGame False s else s)"

definition grave_return_click :: "game \<Rightarrow> game" where
  "grave_return_click s =
     (if gameState s = GRAVE \<and> graveQuestion s \<noteq> None \<and> graveResult s = Some Correct
      then respawnAtCheckpoint s else s)"

subsection \<open>Jumping\<close>

definition executeJump :: "game \<Rightarrow> game" where
  "executeJump s =
     (let p = playerRef s
      in if isGrounded p \<or> coyoteTimer p > 0
         then s\<lparr>playerRef := p\<lparr>vy := JUMP_FORCE, isGrounded := False, jumpCount := 1,
                                coyoteTimer := 0\<rparr>,
                jumpBufferRef := 0\<rparr>
         else s\<lparr>jumpBufferRef := 6\<rparr>)"

section \<open>One frame of the game loop\<close>

subsection \<open>Kinematics (the loop up to the fatal-fall check)\<close>

definition steer :: "(string \<rightharpoonup> bool) \<Rightarrow> player \<Rightarrow> player" where
  "steer keys p =
     (let p1 = (if key_down keys ''ArrowLeft'' \<or> key_down keys ''KeyA''
                then p\<lparr>vx := vx p - 0.8, facing := - 1\<rparr> else p)
      in if key_down keys ''ArrowRight'' \<or> key_down keys ''KeyD''
         then p1\<lparr>vx := vx p1 + 0.8, facing := 1\<rparr> else p1)"

definition clamp_vx :: "player \<Rightarrow> player" where
  "clamp_vx p =
     (let p1 = (if vx p > MOVE_SPEED then p\<lparr>vx := MOVE_SPEED\<rparr> else p)
      in if vx p1 < - MOVE_SPEED then p1\<lparr>vx := - MOVE_SPEED\<rparr> else p1)"

definition apply_friction :: "player \<Rightarrow> player" where
  "apply_friction p = p\<lparr>vx := vx p * FRICTION\<rparr>"

definition snap_vx :: "player \<Rightarrow> player" where
  "snap_vx p = (if \<bar>vx p\<bar> < 0.1 then p\<lparr>vx := 0\<rparr> else p)"

definition move_x :: "player \<Rightarrow> player" where
  "move_x p = p\<lparr>x := x p + vx p\<rparr>"

definition horizontal_update :: "(string \<rightharpoonup> bool) \<Rightarrow> player \<Rightarrow> player" where
  "horizontal_update keys p = move_x (snap_vx (apply_friction (clamp_vx (steer keys p))))"

definition vertical_update :: "player \<Rightarrow> player" where
  "vertical_update p = (let p1 = p\<lparr>vy := vy p + GRAVITY\<rparr> in p1\<lparr>y := y p1 + vy p1\<rparr>)"

definition integrate :: "game \<Rightarrow> game" where
  "integrate s = s\<lparr>playerRef := vertical_update (horizontal_update (keysRef s) (playerRef s))\<rparr>"

definition fatal_fall :: "player \<Rightarrow> bool" where
  "fatal_fall p = (y p > groundRefY + 520)"

subsection \<open>Checkpoints, world bounds, platforms, timers\<close>

definition checkpoint_step :: "player \<Rightarrow> point \<Rightarrow> checkpoint \<Rightarrow> point" where
  "checkpoint_step p lc cp =
     (if x p > cp_x cp \<and> cp_x cp > x lc
      then \<lparr>x = cp_x cp, y = groundRefY + cp_yOffset cp - height p - 8\<rparr>
      else lc)"

definition update_checkpoint :: "player \<Rightarrow> point \<Rightarrow> point" where
  "update_checkpoint p lc = foldl (checkpoint_step p) lc CHECKPOINTS"

definition world_bounds :: "player \<Rightarrow> player" where
  "world_bounds p =
     (let p1 = (if x p < 0 then p\<lparr>x := 0, vx := 0\<rparr> else p)
      in if x p1 > WORLD_WIDTH - width p1
         then p1\<lparr>x := WORLD_WIDTH - width p1, vx := 0\<rparr> else p1)"

definition overlaps :: "'a entity_scheme \<Rightarrow> 'b entity_scheme \<Rightarrow> bool" where
  "overlaps a b =
     (x a < x b + width b \<and> x a + width a > x b \<and>
      y a < y b + height b \<and> y a + height a > y b)"

definition overlapX :: "player \<Rightarrow> platform \<Rightarrow> real" where
  "overlapX p plat =
     (width p + width plat) / 2 - \<bar>(x p + width p / 2) - (x plat + width plat / 2)\<bar>"

definition overlapY :: "player \<Rightarrow> platform \<Rightarrow> real" where
  "overlapY p plat =
     (height p + height plat) / 2 - \<bar>(y p + height p / 2) - (y plat + height plat / 2)\<bar>"

definition resolve_platform :: "player \<Rightarrow> platform \<Rightarrow> player" where
  "resolve_platform p plat =
     (if overlaps p plat
      then if overlapX p plat < overlapY p plat
           then (if x p + width p / 2 < x plat + width plat / 2
                 then p\<lparr>x := x plat - width p, vx := 0\<rparr>
                 else p\<lparr>x := x plat + width plat, vx := 0\<rparr>)
           else (if y p + height p / 2 < y plat + height plat / 2
                 then p\<lparr>y := y plat - height p, isGrounded := True, vy := 0, jumpCount := 0\<rparr>
                 else p\<lparr>y := y plat + height plat, vy := 0\<rparr>)
      else p)"

definition resolve_collisions :: "player \<Rightarrow> platform list \<Rightarrow> player" where
  "resolve_collisions p plats = foldl resolve_platform (p\<lparr>isGrounded := False\<rparr>) plats"

definition coyote :: "player \<Rightarrow> player" where
  "coyote p =
     (if isGrounded p then p\<lparr>coyoteTimer := 6\<rparr>
      else if coyoteTimer p > 0 then p\<lparr>coyoteTimer := coyoteTimer p - 1\<rparr>
      else p)"

definition jump_buffer :: "game \<Rightarrow> game" where
  "jump_buffer s =
     (let s1 = (if isGrounded (playerRef s) \<and> jumpBufferRef s > 0 then executeJump s else s)
      in if jumpBufferRef s1 > 0 then s1\<lparr>jumpBufferRef := jumpBufferRef s1 - 1\<rparr> else s1)"

definition settle :: "game \<Rightarrow> game" where
  "settle s =
     (let s1 = s\<lparr>lastCheckpointRef := update_checkpoint (playerRef s) (lastCheckpointRef s)\<rparr>;
          s2 = s1\<lparr>playerRef :=
                    coyote (resolve_collisions (world_bounds (playerRef s1)) (platformsRef s1))\<rparr>
      in jump_buffer s2)"

subsection \<open>Orb trigger\<close>

definition level_orbs :: "nat set \<Rightarrow> orb list" where
  "level_orbs collected =
     map (\<lambda>d. \<lparr>x = od_x d, y = groundRefY + od_yOffset d, orb_id = od_id d,
               radius = od_radius d, active = (od_id d \<notin> collected),
               questionId = od_questionId d, name = od_name d, spriteKey = od_spriteKey d,
               blurb = od_blurb d, points = od_points d\<rparr>) ORB_DATA"

definition touches :: "player \<Rightarrow> orb \<Rightarrow> bool" where
  "touches p ob =
     (let dx = x p + width p / 2 - x ob;
          dy = y p + height p / 2 - y ob;
          dist = sqrt (dx * dx + dy * dy)
      in dist < radius ob + width p / 2 + 8)"

definition orb_hit :: "orb \<Rightarrow> game \<Rightarrow> game" where
  "orb_hit ob s =
     (let s1 = s\<lparr>activeOrb := Some ob,
                 playerRef := (playerRef s)\<lparr>vx := 0, vy := 0\<rparr>,
                 keysRef := Map.empty\<rparr>
      in if spriteKey ob \<in> seenLoreRef s1
         then (if truthy_num (questionId ob)
               then (case find (\<lambda>q. Some (q_id q) = questionId ob) REVIEW_QUESTIONS of
                       Some q \<Rightarrow> s1\<lparr>activeQuestion := Some q, modalState := QUIZ\<rparr>
                     | None \<Rightarrow> collectOrb ob s1)
               else collectOrb ob s1)
         else s1\<lparr>modalState := LORE\<rparr>)"

fun orb_scan :: "orb list \<Rightarrow> game \<Rightarrow> game option" where
  "orb_scan [] s = None"
| "orb_scan (ob # obs) s =
     (if \<not> active ob then orb_scan obs s
      else if touches (playerRef s) ob then Some (orb_hit ob s)
      else orb_scan obs s)"

subsection \<open>Enemy patrol and contact\<close>

definition patrol :: "enemy_state \<Rightarrow> enemy_state" where
  "patrol e =
     (let e1 = e\<lparr>x := x e + speed e * dir e\<rparr>;
          e2 = (if x e1 < minX e1 then e1\<lparr>x := minX e1, dir := 1\<rparr> else e1)
      in if x e2 > maxX e2 then e2\<lparr>x := maxX e2, dir := - 1\<rparr> else e2)"

text \<open>
  The enemy loop moves the enemies in order and returns from the frame at the first one
  that overlaps the player: the enemies after it are not moved in that frame.  The flag
  says whether the player was hit.
\<close>

fun enemy_scan :: "player \<Rightarrow> enemy_state list \<Rightarrow> enemy_state list \<times> bool" where
  "enemy_scan p [] = ([], False)"
| "enemy_scan p (e # es) =
     (let e' = patrol e
      in if overlaps p e' then (e' # es, True)
         else (let (es', hit) = enemy_scan p es in (e' # es', hit)))"

subsection \<open>Goal and camera\<close>

definition near_goal :: "player \<Rightarrow> bool" where
  "near_goal p =
     (\<bar>x p - GOAL_X\<bar> < 40 \<and> \<bar>y p - (groundRefY + GOAL_Y_OFFSET)\<bar> < 80)"

definition hasTools :: "game \<Rightarrow> bool" where
  "hasTools s = list_all (\<lambda>i. i \<in> collectedRef s) REQUIRED_TOOL_IDS"

text \<open>
  \<open>userName?.trim() || 'Mason'\<close>.  Strings are byte lists here, and \<open>trim\<close> strips the
  ASCII white space only.
\<close>

definition js_space :: "char \<Rightarrow> bool" where
  "js_space c = (c \<in> {CHR 0x20, CHR 0x09, CHR 0x0A, CHR 0x0B, CHR 0x0C, CHR 0x0D})"

definition trim :: "string \<Rightarrow> string" where
  "trim t = rev (dropWhile js_space (rev (dropWhile js_space t)))"

definition submit_name :: "game \<Rightarrow> string" where
  "submit_name s =
     (case userName s of
        None \<Rightarrow> ''Mason''
      | Some u \<Rightarrow> if trim u \<noteq> [] then trim u else ''Mason'')"

definition submitLeaderboardScore :: "string \<Rightarrow> real \<Rightarrow> bool \<Rightarrow> string option \<Rightarrow> game \<Rightarrow> game" where
  "submitLeaderboardScore nm sc completed uid s =
     s\<lparr>submitted := submitted s @
          [\<lparr>sub_name = nm, sub_score = sc, sub_completed = completed, sub_userId = uid\<rparr>]\<rparr>"

definition follow_camera :: "game \<Rightarrow> game" where
  "follow_camera s =
     (let p = playerRef s;
          scaleRatio = dim_h (dimensions s) / DESIGN_HEIGHT;
          viewW = dim_w (dimensions s) / scaleRatio;
          viewH = DESIGN_HEIGHT;
          targetCamX = max 0 (min (x p - viewW / 2 + width p / 2) (WORLD_WIDTH - viewW));
          targetCamY = max (minY (boundsRef s)) (min (y p - viewH / 2) (maxY (boundsRef s)));
          cam = cameraRef s
      in s\<lparr>cameraRef := \<lparr>x = x cam + (targetCamX - x cam) * 0.12,
                          y = y cam + (targetCamY - y cam) * 0.12\<rparr>\<rparr>)"

text \<open>
  The end of the frame, from the goal check on.  \<open>warningMessage\<close> is the value the
  loop's closure captured at the render that scheduled it.
\<close>

definition goal_and_camera :: "game \<Rightarrow> game" where
  "goal_and_camera s =
     (if near_goal (playerRef s)
      then if hasTools s
           then (submitLeaderboardScore (submit_name s) (scoreRef s + 500) True (userId s) s)
                  \<lparr>gameState := VICTORY\<rparr>
           else follow_camera
                  (if \<not> truthy_str (warningMessage s)
                   then s\<lparr>warningMessage :=
                            Some ''The East is sealed. Recover the working tools first.''\<rparr>
                   else s)
      else follow_camera s)"

subsection \<open>The loop\<close>

text \<open>
  \<open>frame_flow\<close> says how the part of the frame before the goal check ends: it returns
  from the loop (fatal fall, orb trigger, enemy contact) or runs on to the goal check.
\<close>

datatype frame_flow = Returned "js_error + game" | Reached game

definition to_goal :: "frame_env \<Rightarrow> game \<Rightarrow> frame_flow" where
  "to_goal env s =
     (let orbs = level_orbs (collectedRef s);
          s1 = integrate s
      in if fatal_fall (playerRef s1) then Returned (handleDeath env s1)
         else
           (let s2 = settle s1
            in case orb_scan orbs s2 of
                 Some s3 \<Rightarrow> Returned (Inr s3)
               | None \<Rightarrow>
                   (case enemy_scan (playerRef s2) (enemiesRef s2) of
                      (es, True) \<Rightarrow> Returned (handleDeath env (s2\<lparr>enemiesRef := es\<rparr>))
                    | (es, False) \<Rightarrow> Reached (s2\<lparr>enemiesRef := es\<rparr>))))"

definition loop :: "frame_env \<Rightarrow> game \<Rightarrow> js_error + game" where
  "loop env s =
     (if \<not> canvas_ok env then Inr s
      else if dim_w (dimensions s) = 0 \<or> dim_h (dimensions s) = 0 then Inr s
      else case to_goal env s of
             Returned r \<Rightarrow> r
           | Reached g \<Rightarrow> Inr (goal_and_camera g))"

section \<open>Input handlers and the events of the component\<close>

definition jump_code :: "string \<Rightarrow> bool" where
  "jump_code c = (c \<in> {''Space'', ''ArrowUp'', ''KeyW''})"

definition halve_rise :: "game \<Rightarrow> game" where
  "halve_rise s =
     (if vy (playerRef s) < 0
      then s\<lparr>playerRef := (playerRef s)\<lparr>vy := vy (playerRef s) * 0.5\<rparr>\<rparr> else s)"

definition handleKeyDown :: "string \<Rightarrow> game \<Rightarrow> game" where
  "handleKeyDown c s =
     (if c = ''Escape''
      then (if gameState s = PLAYING \<and> modalState s = NONE then s\<lparr>gameState := PAUSED\<rparr>
            else if gameState s = PAUSED then s\<lparr>gameState := PLAYING\<rparr>
            else s)
      else if gameState s = START \<and> c = ''Enter'' then resetGame False s
      else if gameState s \<noteq> PLAYING \<or> modalState s \<noteq> NONE then s
      else (let s1 = (if jump_code c then executeJump s else s)
            in s1\<lparr>keysRef := (keysRef s1)(c \<mapsto> True)\<rparr>))"

definition handleKeyUp :: "string \<Rightarrow> game \<Rightarrow> game" where
  "handleKeyUp c s =
     (let s1 = s\<lparr>keysRef := (keysRef s)(c \<mapsto> False)\<rparr>
      in if jump_code c then halve_rise s1 else s1)"

text \<open>The on-screen buttons, rendered while the state is PLAYING and no modal is open.\<close>

definition handleInputStart :: "string \<Rightarrow> game \<Rightarrow> game" where
  "handleInputStart k s =
     (if gameState s \<noteq> PLAYING \<or> modalState s \<noteq> NONE then s
      else (let s1 = (if k = ''Space'' then executeJump s else s)
            in s1\<lparr>keysRef := (keysRef s1)(k \<mapsto> True)\<rparr>))"

definition handleInputEnd :: "string \<Rightarrow> game \<Rightarrow> game" where
  "handleInputEnd k s =
     (let s1 = s\<lparr>keysRef := (keysRef s)(k \<mapsto> False)\<rparr>
      in if k = ''Space'' then halve_rise s1 else s1)"

text \<open>
  QuizModal (rendered while the modal state is QUIZ and a question is active) compares
  the chosen answer with \<open>question.correctAnswer\<close>, shows the result, and its next
  button calls \<open>onCorrect\<close> or \<open>onIncorrect\<close>; the two presses are one event here.
  LoreModal (rendered while the modal state is LORE and an orb is active) calls
  \<open>onNext\<close>.
\<close>

definition quiz_answer_click :: "string \<Rightarrow> game \<Rightarrow> game" where
  "quiz_answer_click answer s =
     (if modalState s = QUIZ
      then (case activeQuestion s of
              None \<Rightarrow> s
            | Some q \<Rightarrow>
                if answer = correctAnswer q then handleQuizCorrect s
                else handleQuizIncorrect s)
      else s)"

definition lore_next_click :: "game \<Rightarrow> game" where
  "lore_next_click s =
     (if modalState s = LORE \<and> activeOrb s \<noteq> None then handleLoreContinue s else s)"

text \<open>
  The events the component reacts to.  A frame is not guarded here: \<open>loop\<close> itself
  checks nothing but the canvas, and the effect that schedules it does so in the state
  PLAYING with no modal open.
\<close>

datatype event =
    Frame frame_env
  | KeyDown string
  | KeyUp string
  | InputStart string
  | InputEnd string
  | StartClick
  | LoreNext
  | QuizAnswer string
  | GraveAnswer string
  | GraveReturn
  | GraveBeginAgain
  | PauseResume
  | PauseRestart
  | PauseMenu
  | VictoryMenu
  | WarningTimeout
  | Resize dims

fun step :: "event \<Rightarrow> game \<Rightarrow> js_error + game" where
  "step (Frame env) s = loop env s"
| "step (KeyDown c) s = Inr (handleKeyDown c s)"
| "step (KeyUp c) s = Inr (handleKeyUp c s)"
| "step (InputStart k) s = Inr (handleInputStart k s)"
| "step (InputEnd k) s = Inr (handleInputEnd k s)"
| "step StartClick s = Inr (if gameState s = START then resetGame False s else s)"
| "step LoreNext s = Inr (lore_next_click s)"
| "step (QuizAnswer a) s = Inr (quiz_answer_click a s)"
| "step (GraveAnswer a) s = Inr (grave_answer_click a s)"
| "step GraveReturn s = Inr (grave_return_click s)"
| "step GraveBeginAgain s = Inr (grave_begin_again_click s)"
| "step PauseResume s = Inr (if gameState s = PAUSED then s\<lparr>gameState := PLAYING\<rparr> else s)"
| "step PauseRestart s = Inr (if gameState s = PAUSED then resetGame False s else s)"
| "step PauseMenu s = Inr (if gameState s = PAUSED then resetGame True s else s)"
| "step VictoryMenu s = Inr (if gameState s = VICTORY then resetGame True s else s)"
| "step WarningTimeout s = Inr (s\<lparr>warningMessage := None\<rparr>)"
| "step (Resize d) s =
     Inr (if dim_w d > 0 \<and> dim_h d > 0 then s\<lparr>dimensions := d\<rparr> else s)"

text \<open>Events in sequence; an exception ends the execution.\<close>

fun exec :: "game \<Rightarrow> event list \<Rightarrow> js_error + game" where
  "exec s [] = Inr s"
| "exec s (e # es) = (case step e s of Inl err \<Rightarrow> Inl err | Inr s' \<Rightarrow> exec s' es)"

section \<open>Properties: vocabulary and sample inputs\<close>

subsection \<open>Predicates used in the statements\<close>

text \<open>An enemy is inside its patrol interval.\<close>

definition in_patrol :: "enemy_state \<Rightarrow> bool" where
  "in_patrol e = (minX e \<le> x e \<and> x e \<le> maxX e)"

text \<open>
  The bounding-box test of the collision loop is the conjunction of an overlap along x
  and an overlap along y; \<open>resolved_axis\<close> names the axis along which
  \<open>resolve_platform\<close> corrects the player, if it does, and \<open>axes_resolved\<close> lists the
  axes of the corrections a pass over the given platforms makes, in order.
\<close>

datatype axis = AxisX | AxisY

definition overlaps_on :: "axis \<Rightarrow> 'a entity_scheme \<Rightarrow> 'b entity_scheme \<Rightarrow> bool" where
  "overlaps_on ax a b =
     (case ax of
        AxisX \<Rightarrow> x a < x b + width b \<and> x a + width a > x b
      | AxisY \<Rightarrow> y a < y b + height b \<and> y a + height a > y b)"

definition resolved_axis :: "player \<Rightarrow> platform \<Rightarrow> axis option" where
  "resolved_axis p plat =
     (if overlaps p plat
      then Some (if overlapX p plat < overlapY p plat then AxisX else AxisY)
      else None)"

fun axes_resolved :: "player \<Rightarrow> platform list \<Rightarrow> axis list" where
  "axes_resolved p [] = []"
| "axes_resolved p (q # qs) =
     (case resolved_axis p q of None \<Rightarrow> [] | Some a \<Rightarrow> [a])
       @ axes_resolved (resolve_platform p q) qs"

text \<open>
  The post-condition of the collision pass as the specification words it: every platform
  that the pass corrected the player against is, after the whole pass, clear of the player
  along the axis of its correction.
\<close>

definition pass_clears :: "player \<Rightarrow> platform list \<Rightarrow> bool" where
  "pass_clears p plats =
     (\<forall>i < length plats. \<forall>ax.
        resolved_axis (foldl resolve_platform (p\<lparr>isGrounded := False\<rparr>) (take i plats))
          (plats ! i) = Some ax
        \<longrightarrow> \<not> overlaps_on ax (resolve_collisions p plats) (plats ! i))"

text \<open>
  The frame gets past the checks of the canvas and the window size; and: it does, gets to
  the goal check, and finds the player near the goal.
\<close>

definition frame_runs :: "frame_env \<Rightarrow> game \<Rightarrow> bool" where
  "frame_runs env s =
     (canvas_ok env \<and> dim_w (dimensions s) \<noteq> 0 \<and> dim_h (dimensions s) \<noteq> 0)"

definition frame_near_goal :: "frame_env \<Rightarrow> game \<Rightarrow> bool" where
  "frame_near_goal env s =
     (frame_runs env s \<and>
      (case to_goal env s of Reached g \<Rightarrow> near_goal (playerRef g) | Returned r \<Rightarrow> False))"

text \<open>
  The refs \<open>scoreRef\<close> and \<open>collectedRef\<close> mirror the state variables \<open>score\<close>
  and \<open>collectedIds\<close> (the component also copies the state into the refs after every
  render that changed it).
\<close>

definition mirrored :: "game \<Rightarrow> bool" where
  "mirrored s = (scoreRef s = score s \<and> collectedRef s = collectedIds s)"

text \<open>The first orb of the level, as the loop builds it while it is not collected.\<close>

definition skirret_orb :: orb where
  "skirret_orb =
     \<lparr>x = 1180, y = groundRefY + (- 20), orb_id = 1, radius = 18, active = True,
      questionId = Some 1, name = ''Skirret'', spriteKey = ''skirret'',
      blurb = ''The Skirret draws the straight and undeviating line of conduct.'',
      points = Some 150\<rparr>"

text \<open>
  Runs.  An event ends the run when it calls \<open>resetGame\<close> in the state it arrives in;
  \<open>one_run s evs\<close> says that none of the events \<open>evs\<close>, executed from \<open>s\<close>, does.
  \<open>checks_checkpoints env s\<close> says that the frame gets to the checkpoint loop;
  \<open>exceeded s evs\<close> lists the x of every checkpoint that the player's x was greater
  than when a frame of \<open>evs\<close> ran that loop.
\<close>

fun calls_reset :: "event \<Rightarrow> game \<Rightarrow> bool" where
  "calls_reset (KeyDown c) s = (gameState s = START \<and> c = ''Enter'')"
| "calls_reset StartClick s = (gameState s = START)"
| "calls_reset GraveBeginAgain s =
     (gameState s = GRAVE \<and> graveQuestion s \<noteq> None \<and> graveResult s = Some Incorrect)"
| "calls_reset PauseRestart s = (gameState s = PAUSED)"
| "calls_reset PauseMenu s = (gameState s = PAUSED)"
| "calls_reset VictoryMenu s = (gameState s = VICTORY)"
| "calls_reset _ s = False"

fun one_run :: "game \<Rightarrow> event list \<Rightarrow> bool" where
  "one_run s [] = True"
| "one_run s (e # es) =
     (\<not> calls_reset e s \<and> (case step e s of Inl err \<Rightarrow> True | Inr s' \<Rightarrow> one_run s' es))"

definition checks_checkpoints :: "frame_env \<Rightarrow> game \<Rightarrow> bool" where
  "checks_checkpoints env s =
     (frame_runs env s \<and> \<not> fatal_fall (playerRef (integrate s)))"

definition passed :: "real \<Rightarrow> real list" where
  "passed px = map cp_x (filter (\<lambda>cp. px > cp_x cp) CHECKPOINTS)"

fun exceeded_by :: "event \<Rightarrow> game \<Rightarrow> real list" where
  "exceeded_by (Frame env) s =
     (if checks_checkpoints env s then passed (x (playerRef (integrate s))) else [])"
| "exceeded_by _ s = []"

fun exceeded :: "game \<Rightarrow> event list \<Rightarrow> real list" where
  "exceeded s [] = []"
| "exceeded s (e # es) =
     exceeded_by e s @ (case step e s of Inl err \<Rightarrow> [] | Inr s' \<Rightarrow> exceeded s' es)"

subsection \<open>Sample inputs\<close>

text \<open>The first floor after the gap and the first stair above it, as platforms.\<close>

definition second_floor :: platform where
  "second_floor =
     \<lparr>x = 1020, y = 320, width = 620, height = 90, color = INDIGO, ptype = Some Floor\<rparr>"

definition first_stair :: platform where
  "first_stair =
     \<lparr>x = 1500, y = 280, width = 120, height = 16, color = SILVER, ptype = Some Stair\<rparr>"


definition demo_dims :: dims where
  "demo_dims = \<lparr>dim_w = 800, dim_h = 600\<rparr>"

definition demo_env :: frame_env where
  "demo_env = \<lparr>canvas_ok = True, rnd = 0.5, shuffled = (\<lambda>xs. xs)\<rparr>"

text \<open>A run just begun from the menu.\<close>

definition fresh_run :: game where
  "fresh_run = resetGame False (mounted demo_dims None (Some ''  Hiram ''))"

definition place :: "real \<Rightarrow> real \<Rightarrow> game \<Rightarrow> game" where
  "place px py s = s\<lparr>playerRef := (playerRef s)\<lparr>x := px, y := py\<rparr>\<rparr>"

text \<open>Below the death line, beside the first orb, and on the platform under the goal.\<close>

definition falling :: game where
  "falling = place 950 840 fresh_run"

definition at_orb :: game where
  "at_orb = place 1165 276 fresh_run"

definition at_goal :: game where
  "at_goal = place 4790 236 fresh_run"

definition at_goal_with_tools :: game where
  "at_goal_with_tools =
     at_goal\<lparr>collectedRef := {1, 2, 3}, collectedIds := {1, 2, 3}, score := 450, scoreRef := 450\<rparr>"

text \<open>
  The quiz of the first orb open, with the fourth orb already collected for 250 points.
\<close>

definition quiz_open :: game where
  "quiz_open =
     at_orb\<lparr>modalState := QUIZ, activeOrb := Some skirret_orb,
            activeQuestion := Some (hd REVIEW_QUESTIONS),
            collectedRef := {4}, collectedIds := {4}, score := 250, scoreRef := 250,
            seenLoreRef := {''acacia'', ''skirret''}\<rparr>"

text \<open>The grave overlay open on the first death question, the player facing left.\<close>

definition in_grave :: game where
  "in_grave =
     fresh_run\<lparr>gameState := GRAVE, graveQuestion := Some (hd QUESTIONS),
               graveAnswers := answers (hd QUESTIONS),
               playerRef := (playerRef fresh_run)\<lparr>x := 950, y := 841, facing := - 1\<rparr>\<rparr>"

text \<open>
  A frame whose kinematics leave the player rectangle reaching into the floor under the
  first stair and into the stair itself; \<open>wedged\<close> is the rectangle that frame hands
  to its collision pass.
\<close>

definition in_floor :: game where
  "in_floor = place 1540 289.55 fresh_run"

definition wedged :: player where
  "wedged = world_bounds (playerRef (integrate in_floor))"

text \<open>A run about to pass the first checkpoint, and the events that take it there.\<close>

definition before_checkpoint :: game where
  "before_checkpoint = place 139.5 276 fresh_run"

definition pass_events :: "event list" where
  "pass_events = [KeyDown ''ArrowRight'', Frame demo_env]"

section \<open>Verification\<close>

lemmas kinematics_defs = horizontal_update_def vertical_update_def steer_def clamp_vx_def
  apply_friction_def snap_vx_def move_x_def key_down_def

lemmas const_defs = GRAVITY_def FRICTION_def MOVE_SPEED_def JUMP_FORCE_def WORLD_WIDTH_def
  DESIGN_HEIGHT_def GOAL_X_def GOAL_Y_OFFSET_def groundRefY_def

lemmas reset_defs = resetGame_def resetPlayer_def initializeEnemies_def

lemmas collision_defs = world_bounds_def resolve_collisions_def resolve_platform_def
  overlaps_def overlapX_def overlapY_def coyote_def jump_buffer_def executeJump_def
  initial_platforms_def PLATFORM_DATA_def pdef_def

subsection \<open>The sample inputs, evaluated\<close>

lemma fresh_run_fields:
  "gameState fresh_run = PLAYING"
  "modalState fresh_run = NONE"
  "dimensions fresh_run = \<lparr>dim_w = 800, dim_h = 600\<rparr>"
  "keysRef fresh_run = Map.empty"
  "playerRef fresh_run =
     \<lparr>x = 60, y = 220, width = 30, height = 44, vx = 0, vy = 0,
      isGrounded = False, facing = 1, jumpCount = 0, coyoteTimer = 0\<rparr>"
  "platformsRef fresh_run = initial_platforms"
  "lastCheckpointRef fresh_run = \<lparr>x = 60, y = 220\<rparr>"
  "jumpBufferRef fresh_run = 0"
  "enemiesRef fresh_run = initial_enemies"
  "collectedRef fresh_run = {}"
  "collectedIds fresh_run = {}"
  "seenLoreRef fresh_run = {}"
  "score fresh_run = 0"
  "scoreRef fresh_run = 0"
  "warningMessage fresh_run = None"
  "submitted fresh_run = []"
  "userId fresh_run = None"
  "userName fresh_run = Some ''  Hiram ''"
  "graveResult fresh_run = None"
  by (simp_all add: fresh_run_def demo_dims_def mounted_def reset_defs initial_player_def
      Let_def const_defs)

lemma demo_env_fields:
  "canvas_ok demo_env" "rnd demo_env = 0.5"
  by (simp_all add: demo_env_def)

subsection \<open>Reset\<close>

text \<open>
  C9.  The full reset is idempotent: a second call with the same argument changes nothing,
  in any component of the state.
\<close>

theorem resetGame_idempotent:
  "resetGame toMenu (resetGame toMenu s) = resetGame toMenu s"
  by (simp add: reset_defs Let_def)

lemma resetGame_fields:
  "collectedIds (resetGame b s) = {}"
  "collectedRef (resetGame b s) = {}"
  "score (resetGame b s) = 0"
  "scoreRef (resetGame b s) = 0"
  "seenLoreRef (resetGame b s) = {}"
  "modalState (resetGame b s) = NONE"
  "enemiesRef (resetGame b s) = initial_enemies"
  "cameraRef (resetGame b s) = \<lparr>x = 0, y = 0\<rparr>"
  "lastCheckpointRef (resetGame b s) = \<lparr>x = 60, y = 220\<rparr>"
  "gameState (resetGame b s) = (if b then START else PLAYING)"
  "graveQuestion (resetGame b s) = None"
  "graveResult (resetGame b s) = None"
  "warningMessage (resetGame b s) = None"
  "playerRef (resetGame b s) =
     (playerRef s)\<lparr>x := 60, y := 220, vx := 0, vy := 0, isGrounded := False,
                   jumpCount := 0, coyoteTimer := 0\<rparr>"
  by (simp_all add: reset_defs Let_def const_defs)

text \<open>
  C2 (as amended).  A wrong answer to the grave question records the result
  \<open>incorrect\<close>; the overlay then offers the button \<open>Begin Again\<close> only, and pressing
  it resets the run: collected set and seen-lore set empty, score 0, camera, last
  checkpoint, enemies and modal state at their initial values, the player's position,
  velocity, grounded flag, jump count and coyote timer at their initial values, and the
  game state PLAYING.  The player's facing direction and size are not written by the
  reset.
\<close>

theorem grave_incorrect_resets_run:
  assumes "gameState s = GRAVE" and "graveQuestion s = Some q" and "graveResult s = None"
    and "answer \<noteq> correctAnswer q"
  shows "graveResult (grave_answer_click answer s) = Some Incorrect \<and>
         gameState (grave_answer_click answer s) = GRAVE \<and>
         grave_begin_again_click (grave_answer_click answer s) = resetGame False s \<and>
         collectedIds (resetGame False s) = {} \<and> collectedRef (resetGame False s) = {} \<and>
         score (resetGame False s) = 0 \<and> scoreRef (resetGame False s) = 0 \<and>
         seenLoreRef (resetGame False s) = {} \<and>
         modalState (resetGame False s) = NONE \<and>
         gameState (resetGame False s) = PLAYING \<and>
         cameraRef (resetGame False s) = cameraRef (mounted d uid uname) \<and>
         lastCheckpointRef (resetGame False s) = lastCheckpointRef (mounted d uid uname) \<and>
         enemiesRef (resetGame False s) = enemiesRef (mounted d uid uname) \<and>
         playerRef (resetGame False s) =
           initial_player\<lparr>width := width (playerRef s), height := height (playerRef s),
                          facing := facing (playerRef s)\<rparr>"
proof -
  have a: "grave_answer_click answer s = s\<lparr>graveResult := Some Incorrect\<rparr>"
    using assms by (simp add: grave_answer_click_def)
  have b: "grave_begin_again_click (s\<lparr>graveResult := Some Incorrect\<rparr>) = resetGame False s"
    using assms(1,2) by (simp add: grave_begin_again_click_def reset_defs Let_def)
  have p: "playerRef (resetGame False s) =
           initial_player\<lparr>width := width (playerRef s), height := height (playerRef s),
                          facing := facing (playerRef s)\<rparr>"
    by (simp add: resetGame_fields initial_player_def const_defs)
  show ?thesis
    using assms(1) by (simp add: a b p resetGame_fields(1-13) mounted_def const_defs)
qed

lemma in_grave_fields:
  "gameState in_grave = GRAVE"
  "graveQuestion in_grave = Some (hd QUESTIONS)"
  "graveResult in_grave = None"
  "facing (playerRef in_grave) = - 1"
  by (simp_all add: in_grave_def fresh_run_fields)

lemma hd_QUESTIONS_answer:
  "correctAnswer (hd QUESTIONS) = ''To teach us how to die and the knowledge of oneself.''"
  by (simp add: QUESTIONS_def mk_question_def)

theorem grave_incorrect_resets_run_witness:
  "gameState in_grave = GRAVE \<and> graveQuestion in_grave = Some (hd QUESTIONS) \<and>
   graveResult in_grave = None \<and>
   ''To explain the wages of the Middle Chamber.'' \<noteq> correctAnswer (hd QUESTIONS) \<and>
   collectedIds (grave_begin_again_click
      (grave_answer_click ''To explain the wages of the Middle Chamber.'' in_grave)) = {} \<and>
   score (grave_begin_again_click
      (grave_answer_click ''To explain the wages of the Middle Chamber.'' in_grave)) = 0 \<and>
   gameState (grave_begin_again_click
      (grave_answer_click ''To explain the wages of the Middle Chamber.'' in_grave)) = PLAYING"
proof -
  have h: "gameState in_grave = GRAVE" "graveQuestion in_grave = Some (hd QUESTIONS)"
    "graveResult in_grave = None"
    "''To explain the wages of the Middle Chamber.'' \<noteq> correctAnswer (hd QUESTIONS)"
    by (simp_all add: in_grave_fields hd_QUESTIONS_answer)
  show ?thesis
    using h grave_incorrect_resets_run [OF h, of demo_dims None None] by simp
qed

text \<open>
  The claim as first stated fails: the player record after the reset is not the initial
  player record when the player died facing left.
\<close>

theorem grave_incorrect_player_counterexample:
  "playerRef (grave_begin_again_click
      (grave_answer_click ''To explain the wages of the Middle Chamber.'' in_grave))
   \<noteq> initial_player"
proof -
  have "facing (playerRef (grave_begin_again_click
      (grave_answer_click ''To explain the wages of the Middle Chamber.'' in_grave))) = - 1"
    by (simp add: grave_answer_click_def grave_begin_again_click_def in_grave_fields
        hd_QUESTIONS_answer resetGame_fields)
  moreover have "facing initial_player = 1" by (simp add: initial_player_def)
  ultimately show ?thesis by auto
qed

subsection \<open>Horizontal kinematics\<close>

lemma vx_vertical_update: "vx (vertical_update p) = vx p"
  by (simp add: vertical_update_def Let_def)

lemma vx_move_x: "vx (move_x p) = vx p"
  by (simp add: move_x_def)

lemma integrate_vx:
  "vx (playerRef (integrate s)) =
   vx (snap_vx (apply_friction (clamp_vx (steer (keysRef s) (playerRef s)))))"
  by (simp add: integrate_def horizontal_update_def vx_vertical_update vx_move_x)

lemma friction_bound: "\<bar>vx (apply_friction (clamp_vx p))\<bar> \<le> MOVE_SPEED"
  by (auto simp: apply_friction_def clamp_vx_def MOVE_SPEED_def FRICTION_def Let_def abs_if)

lemma snap_small: "\<bar>vx p\<bar> < 0.1 \<Longrightarrow> vx (snap_vx (apply_friction (clamp_vx p))) = 0"
  by (auto simp: apply_friction_def clamp_vx_def snap_vx_def MOVE_SPEED_def FRICTION_def
      Let_def abs_if)

lemma snap_bound: "\<bar>vx p\<bar> \<le> MOVE_SPEED \<Longrightarrow> \<bar>vx (snap_vx p)\<bar> \<le> MOVE_SPEED"
  by (auto simp: snap_vx_def MOVE_SPEED_def)

text \<open>
  C5.  In every frame the horizontal velocity after the friction multiplication is at most
  MOVE_SPEED in magnitude, and so is the velocity the horizontal update leaves; and when
  the velocity had magnitude below 0.1 before the clamp (that is, after the key
  acceleration), the horizontal update leaves it at exactly 0.  Numbers are exact reals
  here.
\<close>

theorem vx_after_friction:
  "\<bar>vx (apply_friction (clamp_vx (steer (keysRef s) (playerRef s))))\<bar> \<le> MOVE_SPEED \<and>
   \<bar>vx (playerRef (integrate s))\<bar> \<le> MOVE_SPEED \<and>
   (\<bar>vx (steer (keysRef s) (playerRef s))\<bar> < 0.1 \<longrightarrow> vx (playerRef (integrate s)) = 0)"
  by (simp add: integrate_vx friction_bound snap_small snap_bound)

theorem vx_after_friction_witness:
  "\<bar>vx (steer (keysRef fresh_run) (playerRef fresh_run))\<bar> < 0.1 \<and>
   vx (playerRef (integrate fresh_run)) = 0"
  using vx_after_friction [of fresh_run]
  by (simp add: fresh_run_fields steer_def key_down_def)

subsection \<open>Death\<close>

lemma pick_in_pool:
  assumes "0 \<le> rnd env" and "rnd env < 1"
  shows "\<exists>q. pickGraveQuestion env = Some q \<and> q \<in> set QUESTIONS"
proof -
  let ?n = "length QUESTIONS"
  let ?i = "\<lfloor>rnd env * real ?n\<rfloor>"
  have n: "?n = 6" by (simp add: QUESTIONS_def)
  have lo: "0 \<le> ?i" using assms(1) by simp
  have "rnd env * real ?n < real ?n" using assms(2) n by simp
  then have hi: "?i < int ?n" by (simp add: floor_less_iff)
  have "nat ?i < ?n" using lo hi by (simp add: nat_less_iff)
  then have mem: "QUESTIONS ! nat ?i \<in> set QUESTIONS" by (rule nth_mem)
  have "pickGraveQuestion env = Some (QUESTIONS ! nat ?i)"
    using lo hi by (simp add: pickGraveQuestion_def Let_def)
  then show ?thesis using mem by blast
qed

lemma death_pool_ids: "q \<in> set QUESTIONS \<Longrightarrow> 101 \<le> q_id q"
  by (auto simp: QUESTIONS_def mk_question_def)

lemma review_pool_ids: "q \<in> set REVIEW_QUESTIONS \<Longrightarrow> q_id q \<le> 5"
  by (auto simp: REVIEW_QUESTIONS_def mk_question_def)

lemma handleDeath_playing:
  assumes "gameState s = PLAYING" and "pickGraveQuestion env = Some q"
  shows "handleDeath env s =
           Inr (s\<lparr>graveQuestion := Some q, graveAnswers := shuffled env (answers q),
                  graveResult := None, keysRef := Map.empty,
                  playerRef := (playerRef s)\<lparr>vx := 0, vy := 0\<rparr>, gameState := GRAVE\<rparr>)"
  using assms by (simp add: handleDeath_def)

lemma handleDeath_total:
  assumes "0 \<le> rnd env" and "rnd env < 1"
  shows "\<exists>r. handleDeath env s = Inr r"
proof (cases "gameState s = PLAYING")
  case True
  obtain q where "pickGraveQuestion env = Some q" using pick_in_pool [OF assms] by blast
  then show ?thesis using True by (simp add: handleDeath_def)
next
  case False
  then show ?thesis by (simp add: handleDeath_def)
qed

lemma integrate_keeps:
  "gameState (integrate s) = gameState s"
  "modalState (integrate s) = modalState s"
  "dimensions (integrate s) = dimensions s"
  "lastCheckpointRef (integrate s) = lastCheckpointRef s"
  "enemiesRef (integrate s) = enemiesRef s"
  "collectedRef (integrate s) = collectedRef s"
  "collectedIds (integrate s) = collectedIds s"
  "seenLoreRef (integrate s) = seenLoreRef s"
  "score (integrate s) = score s"
  "scoreRef (integrate s) = scoreRef s"
  "warningMessage (integrate s) = warningMessage s"
  "submitted (integrate s) = submitted s"
  "userId (integrate s) = userId s"
  "userName (integrate s) = userName s"
  "platformsRef (integrate s) = platformsRef s"
  "jumpBufferRef (integrate s) = jumpBufferRef s"
  "keysRef (integrate s) = keysRef s"
  by (simp_all add: integrate_def)

text \<open>
  C7.  A frame run in state PLAYING that finds the player below \<open>groundRefY + 520\<close>
  after the kinematics raises nothing (given that \<open>Math.random\<close> returns a value in
  [0, 1), as it is specified to): the state becomes GRAVE, the player's velocity is
  zeroed, the held keys are cleared, and the grave question is an entry of the
  death-question table, whose ids are at least 101 and are the id of no review question.
\<close>

theorem fatal_fall_to_grave:
  assumes "gameState s = PLAYING"
    and "canvas_ok env" and "dim_w (dimensions s) \<noteq> 0" and "dim_h (dimensions s) \<noteq> 0"
    and "0 \<le> rnd env" and "rnd env < 1"
    and "fatal_fall (playerRef (integrate s))"
  shows "\<exists>r q. loop env s = Inr r \<and> gameState r = GRAVE \<and>
           vx (playerRef r) = 0 \<and> vy (playerRef r) = 0 \<and> keysRef r = Map.empty \<and>
           graveQuestion r = Some q \<and> q \<in> set QUESTIONS \<and> 101 \<le> q_id q \<and>
           q \<notin> set REVIEW_QUESTIONS \<and> q_id q \<notin> q_id ` set REVIEW_QUESTIONS"
proof -
  obtain q where q: "pickGraveQuestion env = Some q" "q \<in> set QUESTIONS"
    using pick_in_pool assms(5,6) by blast
  have qid: "101 \<le> q_id q" using q(2) by (rule death_pool_ids)
  have notrev: "q_id q \<notin> q_id ` set REVIEW_QUESTIONS"
    using qid review_pool_ids by fastforce
  then have notin: "q \<notin> set REVIEW_QUESTIONS" by blast
  have "loop env s = handleDeath env (integrate s)"
    using assms(2,3,4,7) by (simp add: loop_def to_goal_def Let_def)
  also have "\<dots> = Inr ((integrate s)\<lparr>graveQuestion := Some q,
                      graveAnswers := shuffled env (answers q),
                      graveResult := None, keysRef := Map.empty,
                      playerRef := (playerRef (integrate s))\<lparr>vx := 0, vy := 0\<rparr>,
                      gameState := GRAVE\<rparr>)"
    using assms(1) q(1) by (simp add: handleDeath_playing integrate_keeps)
  finally show ?thesis using q(2) qid notrev notin by simp
qed

lemma falling_fields:
  "gameState falling = PLAYING"
  "dimensions falling = \<lparr>dim_w = 800, dim_h = 600\<rparr>"
  "keysRef falling = Map.empty"
  "playerRef falling =
     \<lparr>x = 950, y = 840, width = 30, height = 44, vx = 0, vy = 0,
      isGrounded = False, facing = 1, jumpCount = 0, coyoteTimer = 0\<rparr>"
  by (simp_all add: falling_def place_def fresh_run_fields)

theorem fatal_fall_to_grave_witness:
  "gameState falling = PLAYING \<and> canvas_ok demo_env \<and>
   dim_w (dimensions falling) \<noteq> 0 \<and> dim_h (dimensions falling) \<noteq> 0 \<and>
   0 \<le> rnd demo_env \<and> rnd demo_env < 1 \<and> fatal_fall (playerRef (integrate falling)) \<and>
   (\<exists>r q. loop demo_env falling = Inr r \<and> gameState r = GRAVE \<and>
           vx (playerRef r) = 0 \<and> vy (playerRef r) = 0 \<and> keysRef r = Map.empty \<and>
           graveQuestion r = Some q \<and> q \<in> set QUESTIONS \<and> 101 \<le> q_id q \<and>
           q \<notin> set REVIEW_QUESTIONS)"
proof -
  have h: "gameState falling = PLAYING" "canvas_ok demo_env"
    "dim_w (dimensions falling) \<noteq> 0" "dim_h (dimensions falling) \<noteq> 0"
    "0 \<le> rnd demo_env" "rnd demo_env < 1"
    by (simp_all add: falling_fields demo_env_fields)
  have f: "fatal_fall (playerRef (integrate falling))"
    by (simp add: falling_fields integrate_def kinematics_defs fatal_fall_def Let_def
        const_defs)
  show ?thesis using h f fatal_fall_to_grave [OF h f] by blast
qed

subsection \<open>Orb quiz\<close>

text \<open>
  C8.  A wrong answer in the orb quiz drops the pending orb and question, closes the
  modal and sets the warning message; the collected set, the score and the last
  checkpoint (and every other field) stay as they were.  That the message is cleared
  again after three seconds is a timer, which is not part of this theorem.
\<close>

theorem quiz_incorrect_keeps_progress:
  assumes "modalState s = QUIZ" and "activeQuestion s = Some q"
    and "answer \<noteq> correctAnswer q"
  shows "quiz_answer_click answer s =
           s\<lparr>activeQuestion := None, activeOrb := None, modalState := NONE,
             warningMessage := Some ''Fidelity falters. The tool remains in shadow.''\<rparr> \<and>
         activeOrb (quiz_answer_click answer s) = None \<and>
         activeQuestion (quiz_answer_click answer s) = None \<and>
         modalState (quiz_answer_click answer s) = NONE \<and>
         warningMessage (quiz_answer_click answer s) =
           Some ''Fidelity falters. The tool remains in shadow.'' \<and>
         collectedIds (quiz_answer_click answer s) = collectedIds s \<and>
         collectedRef (quiz_answer_click answer s) = collectedRef s \<and>
         score (quiz_answer_click answer s) = score s \<and>
         scoreRef (quiz_answer_click answer s) = scoreRef s \<and>
         lastCheckpointRef (quiz_answer_click answer s) = lastCheckpointRef s \<and>
         gameState (quiz_answer_click answer s) = gameState s"
  using assms by (simp add: quiz_answer_click_def handleQuizIncorrect_def)

subsection \<open>What the phases of a frame leave alone\<close>

lemma jump_buffer_keeps:
  "gameState (jump_buffer s) = gameState s"
  "modalState (jump_buffer s) = modalState s"
  "dimensions (jump_buffer s) = dimensions s"
  "lastCheckpointRef (jump_buffer s) = lastCheckpointRef s"
  "enemiesRef (jump_buffer s) = enemiesRef s"
  "collectedRef (jump_buffer s) = collectedRef s"
  "collectedIds (jump_buffer s) = collectedIds s"
  "seenLoreRef (jump_buffer s) = seenLoreRef s"
  "score (jump_buffer s) = score s"
  "scoreRef (jump_buffer s) = scoreRef s"
  "warningMessage (jump_buffer s) = warningMessage s"
  "submitted (jump_buffer s) = submitted s"
  "userId (jump_buffer s) = userId s"
  "userName (jump_buffer s) = userName s"
  by (simp_all add: jump_buffer_def executeJump_def Let_def)

lemma settle_keeps:
  "gameState (settle s) = gameState s"
  "modalState (settle s) = modalState s"
  "dimensions (settle s) = dimensions s"
  "enemiesRef (settle s) = enemiesRef s"
  "collectedRef (settle s) = collectedRef s"
  "collectedIds (settle s) = collectedIds s"
  "seenLoreRef (settle s) = seenLoreRef s"
  "score (settle s) = score s"
  "scoreRef (settle s) = scoreRef s"
  "warningMessage (settle s) = warningMessage s"
  "submitted (settle s) = submitted s"
  "userId (settle s) = userId s"
  "userName (settle s) = userName s"
  by (simp_all add: settle_def jump_buffer_keeps Let_def)

lemma settle_checkpoint:
  "lastCheckpointRef (settle s) = update_checkpoint (playerRef s) (lastCheckpointRef s)"
  by (simp add: settle_def jump_buffer_keeps Let_def)

lemma collectOrb_keeps:
  "gameState (collectOrb ob s) = gameState s"
  "lastCheckpointRef (collectOrb ob s) = lastCheckpointRef s"
  "enemiesRef (collectOrb ob s) = enemiesRef s"
  "dimensions (collectOrb ob s) = dimensions s"
  "submitted (collectOrb ob s) = submitted s"
  by (simp_all add: collectOrb_def Let_def)

lemma orb_hit_keeps:
  "gameState (orb_hit ob s) = gameState s"
  "lastCheckpointRef (orb_hit ob s) = lastCheckpointRef s"
  "enemiesRef (orb_hit ob s) = enemiesRef s"
  "dimensions (orb_hit ob s) = dimensions s"
  "submitted (orb_hit ob s) = submitted s"
  by (simp_all add: orb_hit_def collectOrb_keeps Let_def split: option.split)

lemma orb_scan_Some:
  "orb_scan obs s = Some r \<Longrightarrow> \<exists>ob \<in> set obs. active ob \<and> touches (playerRef s) ob \<and> r = orb_hit ob s"
  by (induction obs) (auto split: if_splits)

lemma handleDeath_Inr:
  "handleDeath env s = Inr r \<Longrightarrow>
     lastCheckpointRef r = lastCheckpointRef s \<and> enemiesRef r = enemiesRef s \<and>
     dimensions r = dimensions s \<and> submitted r = submitted s \<and>
     score r = score s \<and> scoreRef r = scoreRef s \<and>
     collectedRef r = collectedRef s \<and> collectedIds r = collectedIds s"
  by (auto simp: handleDeath_def split: if_splits option.splits)

lemma follow_camera_keeps:
  "gameState (follow_camera s) = gameState s"
  "lastCheckpointRef (follow_camera s) = lastCheckpointRef s"
  "enemiesRef (follow_camera s) = enemiesRef s"
  "warningMessage (follow_camera s) = warningMessage s"
  "submitted (follow_camera s) = submitted s"
  "score (follow_camera s) = score s"
  "scoreRef (follow_camera s) = scoreRef s"
  "collectedRef (follow_camera s) = collectedRef s"
  "collectedIds (follow_camera s) = collectedIds s"
  by (simp_all add: follow_camera_def Let_def)

lemma goal_and_camera_keeps:
  "lastCheckpointRef (goal_and_camera s) = lastCheckpointRef s"
  "enemiesRef (goal_and_camera s) = enemiesRef s"
  "score (goal_and_camera s) = score s"
  "scoreRef (goal_and_camera s) = scoreRef s"
  "collectedRef (goal_and_camera s) = collectedRef s"
  "collectedIds (goal_and_camera s) = collectedIds s"
  by (simp_all add: goal_and_camera_def follow_camera_keeps submitLeaderboardScore_def)

lemma to_goal_Reached:
  assumes "to_goal env s = Reached g"
  shows "\<not> fatal_fall (playerRef (integrate s))"
    and "orb_scan (level_orbs (collectedRef s)) (settle (integrate s)) = None"
    and "\<exists>es. enemy_scan (playerRef (settle (integrate s))) (enemiesRef s) = (es, False) \<and>
              g = (settle (integrate s))\<lparr>enemiesRef := es\<rparr>"
  using assms
  by (auto simp: to_goal_def Let_def settle_keeps integrate_keeps
      split: if_splits option.splits prod.splits bool.splits)

lemma to_goal_Reached_keeps:
  assumes "to_goal env s = Reached g"
  shows "gameState g = gameState s" "collectedRef g = collectedRef s"
    "scoreRef g = scoreRef s" "score g = score s" "warningMessage g = warningMessage s"
    "submitted g = submitted s" "userId g = userId s" "userName g = userName s"
    "lastCheckpointRef g = update_checkpoint (playerRef (integrate s)) (lastCheckpointRef s)"
  using to_goal_Reached(3) [OF assms]
  by (auto simp: settle_keeps integrate_keeps settle_checkpoint)

lemma loop_total:
  assumes "0 \<le> rnd env" and "rnd env < 1"
  shows "\<exists>r. loop env s = Inr r"
  using handleDeath_total [OF assms]
  by (auto simp: loop_def to_goal_def Let_def
      split: frame_flow.splits option.splits prod.splits bool.splits)

subsection \<open>Enemy patrol\<close>

lemma patrol_in_patrol: "minX e \<le> maxX e \<Longrightarrow> in_patrol (patrol e)"
  by (auto simp: patrol_def in_patrol_def Let_def)

lemma patrol_bounds_kept: "minX (patrol e) = minX e" "maxX (patrol e) = maxX e"
  by (simp_all add: patrol_def Let_def)

lemma patrol_reverses:
  assumes "minX e \<le> maxX e"
  shows "x e + speed e * dir e < minX e \<longrightarrow> x (patrol e) = minX e \<and> dir (patrol e) = 1"
    and "x e + speed e * dir e > maxX e \<longrightarrow> x (patrol e) = maxX e \<and> dir (patrol e) = - 1"
  using assms by (auto simp: patrol_def Let_def)

lemma enemy_scan_rel:
  "list_all2 (\<lambda>e e'. e' = e \<or> e' = patrol e) es (fst (enemy_scan p es))"
proof (induction es)
  case Nil
  show ?case by simp
next
  case (Cons e es)
  then show ?case
    by (auto simp: Let_def list_all2_same split: prod.splits)
qed

lemma enemy_scan_complete:
  "enemy_scan p es = (es', False) \<Longrightarrow> es' = map patrol es"
  by (induction es arbitrary: es') (auto simp: Let_def split: if_splits prod.splits)

lemma loop_enemies:
  assumes "loop env s = Inr r"
  shows "enemiesRef r = enemiesRef s \<or>
         enemiesRef r = fst (enemy_scan (playerRef (settle (integrate s))) (enemiesRef s))"
proof (cases "frame_runs env s")
  case False
  then show ?thesis using assms by (auto simp: loop_def frame_runs_def split: if_splits)
next
  case True
  let ?s1 = "integrate s" and ?s2 = "settle (integrate s)"
  have run: "loop env s = (case to_goal env s of Returned r \<Rightarrow> r | Reached g \<Rightarrow> Inr (goal_and_camera g))"
    using True by (simp add: loop_def frame_runs_def)
  show ?thesis
  proof (cases "to_goal env s")
    case (Reached g)
    obtain es where es: "enemy_scan (playerRef ?s2) (enemiesRef s) = (es, False)"
      "g = ?s2\<lparr>enemiesRef := es\<rparr>"
      using to_goal_Reached(3) [OF Reached] by blast
    have "r = goal_and_camera g" using assms run Reached by simp
    then show ?thesis using es by (simp add: goal_and_camera_keeps)
  next
    case (Returned res)
    then have res: "res = Inr r" using assms run by simp
    show ?thesis
    proof (cases "fatal_fall (playerRef ?s1)")
      case True
      then have "handleDeath env ?s1 = Inr r"
        using Returned res by (simp add: to_goal_def Let_def)
      then show ?thesis using handleDeath_Inr integrate_keeps(5) by metis
    next
      case nofall: False
      show ?thesis
      proof (cases "orb_scan (level_orbs (collectedRef s)) ?s2")
        case (Some s3)
        then have "r = s3" using Returned res nofall by (simp add: to_goal_def Let_def)
        then obtain ob where "r = orb_hit ob ?s2" using orb_scan_Some [OF Some] by blast
        then show ?thesis by (simp add: orb_hit_keeps settle_keeps integrate_keeps)
      next
        case None
        obtain es hit where sc: "enemy_scan (playerRef ?s2) (enemiesRef s) = (es, hit)"
          by (cases "enemy_scan (playerRef ?s2) (enemiesRef s)")
        have hit using Returned nofall None sc
          by (cases hit) (simp_all add: to_goal_def Let_def settle_keeps integrate_keeps)
        then have "handleDeath env (?s2\<lparr>enemiesRef := es\<rparr>) = Inr r"
          using Returned res nofall None sc
          by (simp add: to_goal_def Let_def settle_keeps integrate_keeps)
        then have "enemiesRef r = es" using handleDeath_Inr by fastforce
        then show ?thesis using sc by simp
      qed
    qed
  qed
qed

text \<open>
  C10.  The ENEMY\_DATA table gives every enemy a non-empty patrol interval, and no code
  writes the bounds, so \<open>minX \<le> maxX\<close> is what an enemy of the game satisfies.  For
  such enemies, whatever their speed, direction and position: after a frame every enemy is
  either where it was (the frame returned before moving it) or has been moved by
  \<open>patrol\<close> and lies within \<open>[minX, maxX]\<close>; so enemies that were inside their
  intervals before the frame are inside after it; when the frame gets to the goal check
  all enemies were moved and all lie within their intervals; and a move that ends beyond
  a bound is put on the bound with the direction pointing back into the interval.
\<close>

theorem enemies_stay_in_patrol:
  assumes "\<forall>e \<in> set (enemiesRef s). minX e \<le> maxX e" and "loop env s = Inr r"
  shows "list_all2 (\<lambda>e e'. e' = e \<or> (e' = patrol e \<and> in_patrol e'))
           (enemiesRef s) (enemiesRef r) \<and>
         ((\<forall>e \<in> set (enemiesRef s). in_patrol e) \<longrightarrow> (\<forall>e \<in> set (enemiesRef r). in_patrol e)) \<and>
         (frame_runs env s \<and> (\<exists>g. to_goal env s = Reached g) \<longrightarrow>
            enemiesRef r = map patrol (enemiesRef s) \<and>
            (\<forall>e \<in> set (enemiesRef r). in_patrol e)) \<and>
         (\<forall>e \<in> set (enemiesRef s).
            minX (patrol e) = minX e \<and> maxX (patrol e) = maxX e \<and>
            (x e + speed e * dir e < minX e \<longrightarrow> x (patrol e) = minX e \<and> dir (patrol e) = 1) \<and>
            (x e + speed e * dir e > maxX e \<longrightarrow> x (patrol e) = maxX e \<and> dir (patrol e) = - 1))"
proof -
  let ?es = "enemiesRef s"
  let ?R = "\<lambda>e e'. e' = e \<or> (e' = patrol e \<and> in_patrol e')"
  have weak: "list_all2 (\<lambda>e e'. e' = e \<or> e' = patrol e) ?es (enemiesRef r)"
    using loop_enemies [OF assms(2)] enemy_scan_rel [of ?es]
    by (auto simp: list_all2_same)
  have rel: "list_all2 ?R ?es (enemiesRef r)"
    using weak assms(1)
    by (auto simp: list_all2_conv_all_nth patrol_in_patrol)
  have inv: "(\<forall>e \<in> set ?es. in_patrol e) \<longrightarrow> (\<forall>e \<in> set (enemiesRef r). in_patrol e)"
  proof (intro impI ballI)
    fix e' assume a: "\<forall>e \<in> set ?es. in_patrol e" and m: "e' \<in> set (enemiesRef r)"
    obtain i where i: "i < length (enemiesRef r)" "enemiesRef r ! i = e'"
      using m by (auto simp: in_set_conv_nth)
    have len: "length ?es = length (enemiesRef r)" using rel by (rule list_all2_lengthD)
    have "?R (?es ! i) e'" using rel i len by (auto simp: list_all2_conv_all_nth)
    moreover have "in_patrol (?es ! i)" using a i len by simp
    ultimately show "in_patrol e'" by auto
  qed
  have full: "frame_runs env s \<and> (\<exists>g. to_goal env s = Reached g) \<longrightarrow>
            enemiesRef r = map patrol ?es \<and> (\<forall>e \<in> set (enemiesRef r). in_patrol e)"
  proof
    assume a: "frame_runs env s \<and> (\<exists>g. to_goal env s = Reached g)"
    then obtain g where g: "to_goal env s = Reached g" by blast
    obtain es where es: "enemy_scan (playerRef (settle (integrate s))) ?es = (es, False)"
      "g = (settle (integrate s))\<lparr>enemiesRef := es\<rparr>"
      using to_goal_Reached(3) [OF g] by blast
    have "r = goal_and_camera g" using assms(2) a g by (simp add: loop_def frame_runs_def)
    then have "enemiesRef r = es" using es(2) by (simp add: goal_and_camera_keeps)
    then have m: "enemiesRef r = map patrol ?es" using enemy_scan_complete [OF es(1)] by simp
    then show "enemiesRef r = map patrol ?es \<and> (\<forall>e \<in> set (enemiesRef r). in_patrol e)"
      using assms(1) by (auto simp: patrol_in_patrol)
  qed
  have rev: "\<forall>e \<in> set ?es.
            minX (patrol e) = minX e \<and> maxX (patrol e) = maxX e \<and>
            (x e + speed e * dir e < minX e \<longrightarrow> x (patrol e) = minX e \<and> dir (patrol e) = 1) \<and>
            (x e + speed e * dir e > maxX e \<longrightarrow> x (patrol e) = maxX e \<and> dir (patrol e) = - 1)"
    using assms(1) patrol_reverses by (simp add: patrol_bounds_kept)
  show ?thesis using rel inv full rev by blast
qed

lemma initial_enemies_eval:
  "initial_enemies =
     [\<lparr>x = 1200, y = 276, width = 32, height = 44, minX = 1050, maxX = 1500,
       speed = 1.1, etype = Jubela, dir = 1\<rparr>,
      \<lparr>x = 1850, y = 46, width = 32, height = 44, minX = 1700, maxX = 2050,
       speed = 0.9, etype = Jubelo, dir = 1\<rparr>,
      \<lparr>x = 3100, y = 276, width = 32, height = 44, minX = 2950, maxX = 3400,
       speed = 1.6, etype = Jubelum, dir = 1\<rparr>]"
  by (simp add: initial_enemies_def ENEMY_DATA_def const_defs)

theorem enemies_stay_in_patrol_witness:
  "list_all (\<lambda>e. minX e \<le> maxX e) (enemiesRef fresh_run) \<and>
   list_all in_patrol (enemiesRef fresh_run) \<and>
   (\<exists>r. loop demo_env fresh_run = Inr r \<and> list_all in_patrol (enemiesRef r))"
proof -
  have wf: "\<forall>e \<in> set (enemiesRef fresh_run). minX e \<le> maxX e"
    by (simp add: fresh_run_fields initial_enemies_eval)
  have inb: "\<forall>e \<in> set (enemiesRef fresh_run). in_patrol e"
    by (simp add: fresh_run_fields initial_enemies_eval in_patrol_def)
  obtain r where r: "loop demo_env fresh_run = Inr r"
    using loop_total [of demo_env fresh_run] by (auto simp: demo_env_fields)
  have "\<forall>e \<in> set (enemiesRef r). in_patrol e"
    using enemies_stay_in_patrol [OF wf r] inb by blast
  then show ?thesis using wf inb r by (auto simp: list_all_iff)
qed

subsection \<open>Orb trigger, lore and quiz\<close>

text \<open>The distance test without the square root.\<close>

lemma touches_iff [code]:
  "touches p ob =
     (0 < radius ob + width p / 2 + 8 \<and>
      (x p + width p / 2 - x ob) * (x p + width p / 2 - x ob)
        + (y p + height p / 2 - y ob) * (y p + height p / 2 - y ob)
        < (radius ob + width p / 2 + 8) * (radius ob + width p / 2 + 8))"
proof -
  let ?d = "(x p + width p / 2 - x ob) * (x p + width p / 2 - x ob)
        + (y p + height p / 2 - y ob) * (y p + height p / 2 - y ob)"
  let ?r = "radius ob + width p / 2 + 8"
  have d0: "0 \<le> ?d" by simp
  have "sqrt ?d < ?r \<longleftrightarrow> (0 < ?r \<and> ?d < ?r * ?r)"
  proof (cases "0 < ?r")
    case True
    then have "sqrt ?d < ?r \<longleftrightarrow> ?d < ?r\<^sup>2"
      using d0 by (metis real_sqrt_less_iff real_sqrt_abs abs_of_pos)
    then show ?thesis using True by (simp add: power2_eq_square)
  next
    case False
    have "0 \<le> sqrt ?d" using d0 by simp
    then show ?thesis using False by linarith
  qed
  then show ?thesis by (simp add: touches_def Let_def)
qed

lemma level_orbs_first:
  "1 \<notin> collected \<Longrightarrow> \<exists>rest. level_orbs collected = skirret_orb # rest"
  by (simp add: level_orbs_def ORB_DATA_def skirret_orb_def)

lemma find_review_1:
  "find (\<lambda>q. Some (q_id q) = Some 1) REVIEW_QUESTIONS = Some (hd REVIEW_QUESTIONS)"
  by (simp add: REVIEW_QUESTIONS_def mk_question_def)

lemma hd_REVIEW_QUESTIONS:
  "q_id (hd REVIEW_QUESTIONS) = 1" "hd REVIEW_QUESTIONS \<in> set REVIEW_QUESTIONS"
  "correctAnswer (hd REVIEW_QUESTIONS) = ''The Skirret, the Pencil, and the Compasses.''"
  by (simp_all add: REVIEW_QUESTIONS_def mk_question_def)

lemma skirret_orb_fields:
  "orb_id skirret_orb = 1" "questionId skirret_orb = Some 1"
  "spriteKey skirret_orb = ''skirret''" "points skirret_orb = Some 150"
  "active skirret_orb" "name skirret_orb = ''Skirret''"
  by (simp_all add: skirret_orb_def)

text \<open>
  C4.  A frame run in state PLAYING with no modal open, in which the player (after
  kinematics and collisions) is within reach of orb 1 while orb 1 is not collected and its
  lore (sprite key \<open>skirret\<close>) not seen, raises nothing and opens the LORE modal on
  that orb without collecting anything; acknowledging the lore opens the QUIZ modal with
  the review question of id 1; the correct answer to it puts 1 into the collected set
  (ref and state), adds exactly 150 to the score, and closes the modal.
\<close>

theorem skirret_lore_quiz_collect:
  assumes "gameState s = PLAYING" and "modalState s = NONE" and "frame_runs env s"
    and "\<not> fatal_fall (playerRef (integrate s))"
    and "touches (playerRef (settle (integrate s))) skirret_orb"
    and "1 \<notin> collectedRef s" and "''skirret'' \<notin> seenLoreRef s"
  shows "\<exists>r1 q. loop env s = Inr r1 \<and>
           modalState r1 = LORE \<and> activeOrb r1 = Some skirret_orb \<and>
           collectedRef r1 = collectedRef s \<and> score r1 = score s \<and>
           modalState (lore_next_click r1) = QUIZ \<and>
           activeQuestion (lore_next_click r1) = Some q \<and>
           q \<in> set REVIEW_QUESTIONS \<and> q_id q = 1 \<and>
           collectedRef (quiz_answer_click (correctAnswer q) (lore_next_click r1))
             = insert 1 (collectedRef s) \<and>
           collectedIds (quiz_answer_click (correctAnswer q) (lore_next_click r1))
             = insert 1 (collectedRef s) \<and>
           score (quiz_answer_click (correctAnswer q) (lore_next_click r1)) = score s + 150 \<and>
           scoreRef (quiz_answer_click (correctAnswer q) (lore_next_click r1)) = score s + 150 \<and>
           modalState (quiz_answer_click (correctAnswer q) (lore_next_click r1)) = NONE"
proof -
  let ?s2 = "settle (integrate s)"
  let ?hit = "?s2\<lparr>activeOrb := Some skirret_orb,
                  playerRef := (playerRef ?s2)\<lparr>vx := 0, vy := 0\<rparr>,
                  keysRef := Map.empty\<rparr>"
  let ?r1 = "?hit\<lparr>modalState := LORE\<rparr>"
  let ?q = "hd REVIEW_QUESTIONS"
  obtain rest where orbs: "level_orbs (collectedRef s) = skirret_orb # rest"
    using level_orbs_first [OF assms(6)] by blast
  have scan: "orb_scan (level_orbs (collectedRef s)) ?s2 = Some (orb_hit skirret_orb ?s2)"
    using assms(5) by (simp add: orbs skirret_orb_fields)
  have hit: "orb_hit skirret_orb ?s2 = ?r1"
    using assms(7)
    by (simp add: orb_hit_def Let_def skirret_orb_fields settle_keeps integrate_keeps)
  have l: "loop env s = Inr ?r1"
    using assms(3,4) scan hit
    by (simp add: loop_def frame_runs_def to_goal_def Let_def)
  have lore: "lore_next_click ?r1 =
      ?r1\<lparr>seenLoreRef := insert ''skirret'' (seenLoreRef ?r1),
          activeQuestion := Some ?q, modalState := QUIZ\<rparr>"
    by (simp add: lore_next_click_def handleLoreContinue_def Let_def skirret_orb_fields
        truthy_num_def find_review_1 [simplified])
  let ?r2 = "lore_next_click ?r1"
  have quiz: "quiz_answer_click (correctAnswer ?q) ?r2 = collectOrb skirret_orb ?r2"
    by (simp add: lore quiz_answer_click_def handleQuizCorrect_def)
  have fields: "collectedRef ?r2 = collectedRef s" "score ?r2 = score s"
    by (simp_all add: lore settle_keeps integrate_keeps)
  have c: "collectedRef (collectOrb skirret_orb ?r2) = insert 1 (collectedRef s)"
    "collectedIds (collectOrb skirret_orb ?r2) = insert 1 (collectedRef s)"
    "score (collectOrb skirret_orb ?r2) = score s + 150"
    "scoreRef (collectOrb skirret_orb ?r2) = score s + 150"
    "modalState (collectOrb skirret_orb ?r2) = NONE"
    by (simp_all add: collectOrb_def Let_def skirret_orb_fields fields)
  have r1: "modalState ?r1 = LORE" "activeOrb ?r1 = Some skirret_orb"
    "collectedRef ?r1 = collectedRef s" "score ?r1 = score s"
    by (simp_all add: settle_keeps integrate_keeps)
  have r2: "modalState ?r2 = QUIZ" "activeQuestion ?r2 = Some ?q"
    by (simp_all add: lore)
  show ?thesis
    using l r1 r2 hd_REVIEW_QUESTIONS(1,2) c unfolding quiz [symmetric]
    by blast
qed

lemma at_orb_fields:
  "gameState at_orb = PLAYING" "modalState at_orb = NONE"
  "dimensions at_orb = \<lparr>dim_w = 800, dim_h = 600\<rparr>"
  "keysRef at_orb = Map.empty"
  "playerRef at_orb =
     \<lparr>x = 1165, y = 276, width = 30, height = 44, vx = 0, vy = 0,
      isGrounded = False, facing = 1, jumpCount = 0, coyoteTimer = 0\<rparr>"
  "platformsRef at_orb = initial_platforms"
  "lastCheckpointRef at_orb = \<lparr>x = 60, y = 220\<rparr>"
  "jumpBufferRef at_orb = 0"
  "collectedRef at_orb = {}" "seenLoreRef at_orb = {}" "score at_orb = 0"
  by (simp_all add: at_orb_def place_def fresh_run_fields)

lemma at_orb_integrated:
  "playerRef (integrate at_orb) =
     \<lparr>x = 1165, y = 276.45, width = 30, height = 44, vx = 0, vy = 0.45,
      isGrounded = False, facing = 1, jumpCount = 0, coyoteTimer = 0\<rparr>"
  by (simp add: at_orb_fields integrate_def kinematics_defs Let_def const_defs)

lemma at_orb_settled:
  "playerRef (settle (integrate at_orb)) =
     \<lparr>x = 1165, y = 276, width = 30, height = 44, vx = 0, vy = 0,
      isGrounded = True, facing = 1, jumpCount = 0, coyoteTimer = 6\<rparr>"
  by (simp add: settle_def Let_def at_orb_integrated integrate_keeps at_orb_fields
      collision_defs const_defs)

theorem skirret_lore_quiz_collect_witness:
  "gameState at_orb = PLAYING \<and> modalState at_orb = NONE \<and> frame_runs demo_env at_orb \<and>
   \<not> fatal_fall (playerRef (integrate at_orb)) \<and>
   touches (playerRef (settle (integrate at_orb))) skirret_orb \<and>
   1 \<notin> collectedRef at_orb \<and> ''skirret'' \<notin> seenLoreRef at_orb \<and>
   (\<exists>r1 q. loop demo_env at_orb = Inr r1 \<and> modalState r1 = LORE \<and>
      activeQuestion (lore_next_click r1) = Some q \<and> q_id q = 1 \<and>
      collectedIds (quiz_answer_click (correctAnswer q) (lore_next_click r1)) = {1} \<and>
      score (quiz_answer_click (correctAnswer q) (lore_next_click r1)) = 150)"
proof -
  have h: "gameState at_orb = PLAYING" "modalState at_orb = NONE" "frame_runs demo_env at_orb"
    by (simp_all add: at_orb_fields frame_runs_def demo_env_fields)
  have f: "\<not> fatal_fall (playerRef (integrate at_orb))"
    by (simp add: at_orb_integrated fatal_fall_def const_defs)
  have t: "touches (playerRef (settle (integrate at_orb))) skirret_orb"
    by (simp add: at_orb_settled touches_iff skirret_orb_def const_defs)
  have c: "1 \<notin> collectedRef at_orb" "''skirret'' \<notin> seenLoreRef at_orb"
    by (simp_all add: at_orb_fields)
  show ?thesis
    using h f t c skirret_lore_quiz_collect [OF h f t c]
    by (auto simp: at_orb_fields)
qed

lemma quiz_open_fields:
  "modalState quiz_open = QUIZ" "activeQuestion quiz_open = Some (hd REVIEW_QUESTIONS)"
  "collectedIds quiz_open = {4}" "score quiz_open = 250"
  "lastCheckpointRef quiz_open = \<lparr>x = 60, y = 220\<rparr>"
  by (simp_all add: quiz_open_def at_orb_fields)

theorem quiz_incorrect_keeps_progress_witness:
  "modalState quiz_open = QUIZ \<and> activeQuestion quiz_open = Some (hd REVIEW_QUESTIONS) \<and>
   ''The 24 inch gauge and the common gavel.'' \<noteq> correctAnswer (hd REVIEW_QUESTIONS) \<and>
   modalState (quiz_answer_click ''The 24 inch gauge and the common gavel.'' quiz_open) = NONE \<and>
   activeOrb (quiz_answer_click ''The 24 inch gauge and the common gavel.'' quiz_open) = None \<and>
   collectedIds (quiz_answer_click ''The 24 inch gauge and the common gavel.'' quiz_open) = {4} \<and>
   score (quiz_answer_click ''The 24 inch gauge and the common gavel.'' quiz_open) = 250 \<and>
   lastCheckpointRef (quiz_answer_click ''The 24 inch gauge and the common gavel.'' quiz_open)
     = \<lparr>x = 60, y = 220\<rparr>"
proof -
  have h: "modalState quiz_open = QUIZ" "activeQuestion quiz_open = Some (hd REVIEW_QUESTIONS)"
    "''The 24 inch gauge and the common gavel.'' \<noteq> correctAnswer (hd REVIEW_QUESTIONS)"
    by (simp_all add: quiz_open_fields hd_REVIEW_QUESTIONS)
  show ?thesis
    using h quiz_incorrect_keeps_progress [OF h] by (simp add: quiz_open_fields)
qed

subsection \<open>The ways a frame can end\<close>

lemma loop_cases:
  assumes "loop env s = Inr r"
  shows "(\<not> frame_runs env s \<and> r = s) \<or>
         (frame_runs env s \<and> fatal_fall (playerRef (integrate s)) \<and>
            handleDeath env (integrate s) = Inr r) \<or>
         (checks_checkpoints env s \<and>
            ((\<exists>ob. r = orb_hit ob (settle (integrate s))) \<or>
             (\<exists>es. handleDeath env ((settle (integrate s))\<lparr>enemiesRef := es\<rparr>) = Inr r) \<or>
             (\<exists>es. r = goal_and_camera ((settle (integrate s))\<lparr>enemiesRef := es\<rparr>))))"
proof (cases "frame_runs env s")
  case False
  then show ?thesis using assms by (auto simp: loop_def frame_runs_def split: if_splits)
next
  case True
  let ?s1 = "integrate s" and ?s2 = "settle (integrate s)"
  have run: "loop env s =
      (case to_goal env s of Returned r \<Rightarrow> r | Reached g \<Rightarrow> Inr (goal_and_camera g))"
    using True by (simp add: loop_def frame_runs_def)
  show ?thesis
  proof (cases "fatal_fall (playerRef ?s1)")
    case True
    then have "handleDeath env ?s1 = Inr r"
      using assms run by (simp add: to_goal_def Let_def)
    then show ?thesis using True \<open>frame_runs env s\<close> by simp
  next
    case nofall: False
    have chk: "checks_checkpoints env s"
      using True nofall by (simp add: checks_checkpoints_def)
    show ?thesis
    proof (cases "to_goal env s")
      case (Reached g)
      obtain es where "g = ?s2\<lparr>enemiesRef := es\<rparr>"
        using to_goal_Reached(3) [OF Reached] by blast
      moreover have "r = goal_and_camera g" using assms run Reached by simp
      ultimately show ?thesis using chk by blast
    next
      case (Returned res)
      then have res: "res = Inr r" using assms run by simp
      show ?thesis
      proof (cases "orb_scan (level_orbs (collectedRef s)) ?s2")
        case (Some s3)
        then have "r = s3" using Returned res nofall by (simp add: to_goal_def Let_def)
        then obtain ob where "r = orb_hit ob ?s2" using orb_scan_Some [OF Some] by blast
        then show ?thesis using chk by blast
      next
        case None
        obtain es hit where sc: "enemy_scan (playerRef ?s2) (enemiesRef s) = (es, hit)"
          by (cases "enemy_scan (playerRef ?s2) (enemiesRef s)")
        have hit using Returned nofall None sc
          by (cases hit) (simp_all add: to_goal_def Let_def settle_keeps integrate_keeps)
        then have "handleDeath env (?s2\<lparr>enemiesRef := es\<rparr>) = Inr r"
          using Returned res nofall None sc
          by (simp add: to_goal_def Let_def settle_keeps integrate_keeps)
        then show ?thesis using chk by blast
      qed
    qed
  qed
qed

subsection \<open>The refs mirror the state\<close>

lemma mirrored_mounted: "mirrored (mounted d uid uname)"
  by (simp add: mirrored_def mounted_def)

lemma mirrored_resetGame: "mirrored (resetGame b s)"
  by (simp add: mirrored_def resetGame_fields)

lemma mirrored_collectOrb: "mirrored (collectOrb ob s)"
  by (simp add: mirrored_def collectOrb_def Let_def)

lemma mirrored_orb_hit: "mirrored s \<Longrightarrow> mirrored (orb_hit ob s)"
  using mirrored_collectOrb
  by (auto simp: orb_hit_def Let_def mirrored_def collectOrb_def split: option.splits)

lemma mirrored_settle_integrate: "mirrored (settle (integrate s)) = mirrored s"
  by (simp add: mirrored_def settle_keeps integrate_keeps)

lemma mirrored_loop:
  assumes "mirrored s" and "loop env s = Inr r"
  shows "mirrored r"
proof -
  let ?s2 = "settle (integrate s)"
  have d: "\<And>t. mirrored t \<Longrightarrow> handleDeath env t = Inr r \<Longrightarrow> mirrored r"
    using handleDeath_Inr by (fastforce simp: mirrored_def)
  have e: "\<And>es. mirrored (?s2\<lparr>enemiesRef := es\<rparr>)"
    using assms(1) mirrored_settle_integrate [of s] by (simp add: mirrored_def)
  have i: "mirrored (integrate s)" using assms(1) by (simp add: mirrored_def integrate_keeps)
  have g: "\<And>t. mirrored t \<Longrightarrow> mirrored (goal_and_camera t)"
    by (simp add: mirrored_def goal_and_camera_keeps)
  have o: "\<And>ob. mirrored (orb_hit ob ?s2)"
    using assms(1) mirrored_orb_hit mirrored_settle_integrate by blast
  show ?thesis
    using loop_cases [OF assms(2)] assms(1) d e i g o by blast
qed

lemma mirrored_step:
  assumes "mirrored s" and "step e s = Inr r"
  shows "mirrored r"
proof (cases e)
  case (Frame env)
  then show ?thesis using assms mirrored_loop by simp
next
  case (KeyDown c)
  then show ?thesis
    using assms mirrored_resetGame [of False s]
    by (auto simp: handleKeyDown_def executeJump_def Let_def mirrored_def split: if_splits)
next
  case (KeyUp c)
  then show ?thesis
    using assms
    by (auto simp: handleKeyUp_def halve_rise_def Let_def mirrored_def split: if_splits)
next
  case (InputStart k)
  then show ?thesis
    using assms
    by (auto simp: handleInputStart_def executeJump_def Let_def mirrored_def split: if_splits)
next
  case (InputEnd k)
  then show ?thesis
    using assms
    by (auto simp: handleInputEnd_def halve_rise_def Let_def mirrored_def split: if_splits)
next
  case LoreNext
  then show ?thesis
    using assms mirrored_collectOrb
    by (auto simp: lore_next_click_def handleLoreContinue_def Let_def mirrored_def
        collectOrb_def split: if_splits option.splits)
next
  case (QuizAnswer a)
  then show ?thesis
    using assms
    by (auto simp: quiz_answer_click_def handleQuizCorrect_def handleQuizIncorrect_def
        mirrored_def collectOrb_def Let_def split: if_splits option.splits)
next
  case (GraveAnswer a)
  then show ?thesis
    using assms
    by (auto simp: grave_answer_click_def mirrored_def split: if_splits option.splits)
next
  case GraveReturn
  then show ?thesis
    using assms
    by (auto simp: grave_return_click_def respawnAtCheckpoint_def resetPlayer_def Let_def
        mirrored_def split: if_splits)
next
  case GraveBeginAgain
  then show ?thesis
    using assms mirrored_resetGame [of False s]
    by (auto simp: grave_begin_again_click_def split: if_splits)
qed (use assms mirrored_resetGame [of _ s] in \<open>auto simp: mirrored_def split: if_splits\<close>)

subsection \<open>The goal\<close>

lemma hasTools_iff: "hasTools s = (\<forall>i \<in> set REQUIRED_TOOL_IDS. i \<in> collectedRef s)"
  by (simp add: hasTools_def list_all_iff)

text \<open>
  C1.  Take a frame run in state PLAYING with no modal open that gets to the goal check
  and finds the player near the goal.  If every id of REQUIRED\_TOOL\_IDS is in the
  collected set, the frame raises nothing, the state becomes VICTORY, and exactly one
  score is submitted to the leaderboard: the running score (the ref \<open>scoreRef\<close>, which
  mirrors the state variable \<open>score\<close>) plus 500, flagged completed.  If some required id
  is missing, the frame raises nothing, the state stays PLAYING, nothing is submitted, and
  the warning message is set only if none is showing; one that is showing is kept.
  (Lemma \<open>near_goal_frame\<close> below shows that, on this level, a frame that leaves the
  player near the goal always gets to the goal check.)
\<close>

theorem goal_victory_or_warning:
  assumes "gameState s = PLAYING" and "modalState s = NONE" and "frame_near_goal env s"
  shows "((\<forall>i \<in> set REQUIRED_TOOL_IDS. i \<in> collectedRef s) \<longrightarrow>
            (\<exists>r. loop env s = Inr r \<and> gameState r = VICTORY \<and>
                 submitted r = submitted s @
                   [\<lparr>sub_name = submit_name s, sub_score = scoreRef s + 500,
                     sub_completed = True, sub_userId = userId s\<rparr>] \<and>
                 (mirrored s \<longrightarrow> sub_score (last (submitted r)) = score s + 500))) \<and>
         (\<not> (\<forall>i \<in> set REQUIRED_TOOL_IDS. i \<in> collectedRef s) \<longrightarrow>
            (\<exists>r. loop env s = Inr r \<and> gameState r = PLAYING \<and>
                 submitted r = submitted s \<and>
                 warningMessage r =
                   (if truthy_str (warningMessage s) then warningMessage s
                    else Some ''The East is sealed. Recover the working tools first.'')))"
proof -
  have run: "frame_runs env s" using assms(3) by (simp add: frame_near_goal_def)
  obtain g where g: "to_goal env s = Reached g" and near: "near_goal (playerRef g)"
    using assms(3) by (auto simp: frame_near_goal_def split: frame_flow.splits)
  note keep = to_goal_Reached_keeps [OF g]
  have l: "loop env s = Inr (goal_and_camera g)"
    using run g by (simp add: loop_def frame_runs_def)
  have tools: "hasTools g = (\<forall>i \<in> set REQUIRED_TOOL_IDS. i \<in> collectedRef s)"
    by (simp add: hasTools_iff keep)
  have name: "submit_name g = submit_name s" by (simp add: submit_name_def keep)
  show ?thesis
  proof (cases "hasTools g")
    case True
    have "goal_and_camera g =
        (submitLeaderboardScore (submit_name g) (scoreRef g + 500) True (userId g) g)
          \<lparr>gameState := VICTORY\<rparr>"
      using near True by (simp add: goal_and_camera_def)
    then show ?thesis
      using True tools l
      by (simp add: submitLeaderboardScore_def keep name mirrored_def)
  next
    case False
    have "goal_and_camera g =
        follow_camera (if \<not> truthy_str (warningMessage g)
                       then g\<lparr>warningMessage :=
                              Some ''The East is sealed. Recover the working tools first.''\<rparr>
                       else g)"
      using near False by (simp add: goal_and_camera_def)
    then show ?thesis
      using False tools l assms(1)
      by (simp add: follow_camera_keeps keep)
  qed
qed

text \<open>
  Near the goal no other trigger of the level can fire: its orbs lie at x \<le> 4150 and its
  enemies patrol at x \<le> 3400, while the goal zone begins beyond x = 4760.  So a frame
  that runs, does not end in a fatal fall and leaves the player near the goal gets to the
  goal check.
\<close>

lemma far_no_touch:
  assumes "radius ob + width p / 2 + 8 \<le> \<bar>x p + width p / 2 - x ob\<bar>"
  shows "\<not> touches p ob"
proof -
  let ?dx = "x p + width p / 2 - x ob" and ?dy = "y p + height p / 2 - y ob"
  have "\<bar>?dx\<bar> = sqrt (?dx * ?dx)" by simp
  also have "\<dots> \<le> sqrt (?dx * ?dx + ?dy * ?dy)" by (rule real_sqrt_le_mono) simp
  finally show ?thesis using assms by (simp add: touches_def Let_def)
qed

lemma orb_scan_None: "\<forall>ob \<in> set obs. \<not> touches (playerRef s) ob \<Longrightarrow> orb_scan obs s = None"
  by (induction obs) simp_all

lemma level_orbs_place:
  "ob \<in> set (level_orbs collected) \<Longrightarrow> x ob \<le> 4150 \<and> radius ob = 18"
  by (auto simp: level_orbs_def ORB_DATA_def)

lemma enemy_scan_clear:
  "\<forall>e \<in> set es. \<not> overlaps p (patrol e) \<Longrightarrow> enemy_scan p es = (map patrol es, False)"
  by (induction es) (simp_all add: Let_def)

lemma patrol_width: "width (patrol e) = width e"
  by (simp add: patrol_def Let_def)

lemma near_goal_frame:
  assumes "frame_runs env s" and "\<not> fatal_fall (playerRef (integrate s))"
    and "near_goal (playerRef (settle (integrate s)))"
    and "width (playerRef (settle (integrate s))) = 30"
    and "\<forall>e \<in> set (enemiesRef s). minX e \<le> maxX e \<and> maxX e \<le> 3400 \<and> width e = 32"
  shows "frame_near_goal env s"
proof -
  let ?s2 = "settle (integrate s)"
  let ?p = "playerRef ?s2"
  have px: "4760 < x ?p" using assms(3) by (auto simp: near_goal_def GOAL_X_def abs_if split: if_splits)
  have "\<forall>ob \<in> set (level_orbs (collectedRef s)). \<not> touches ?p ob"
  proof
    fix ob assume "ob \<in> set (level_orbs (collectedRef s))"
    then have "x ob \<le> 4150" "radius ob = 18" using level_orbs_place by blast+
    then show "\<not> touches ?p ob" using px assms(4) by (intro far_no_touch) simp
  qed
  then have orb: "orb_scan (level_orbs (collectedRef s)) ?s2 = None" by (rule orb_scan_None)
  have "\<forall>e \<in> set (enemiesRef s). \<not> overlaps ?p (patrol e)"
  proof
    fix e assume e: "e \<in> set (enemiesRef s)"
    then have "in_patrol (patrol e)" "maxX (patrol e) \<le> 3400" "width (patrol e) = 32"
      using assms(5) by (simp_all add: patrol_in_patrol patrol_bounds_kept patrol_width)
    then show "\<not> overlaps ?p (patrol e)" using px by (simp add: overlaps_def in_patrol_def)
  qed
  then have en: "enemy_scan ?p (enemiesRef s) = (map patrol (enemiesRef s), False)"
    by (rule enemy_scan_clear)
  have "to_goal env s = Reached (?s2\<lparr>enemiesRef := map patrol (enemiesRef s)\<rparr>)"
    using assms(2) orb en by (simp add: to_goal_def Let_def settle_keeps integrate_keeps)
  then show ?thesis using assms(1,3) by (simp add: frame_near_goal_def)
qed

lemma initial_enemies_level:
  "\<forall>e \<in> set initial_enemies. minX e \<le> maxX e \<and> maxX e \<le> 3400 \<and> width e = 32"
  by (simp add: initial_enemies_eval)

lemma at_goal_near:
  "near_goal \<lparr>x = 4790, y = 236, width = 30, height = 44, vx = 0, vy = 0,
      isGrounded = True, facing = 1, jumpCount = 0, coyoteTimer = 6\<rparr>"
  by (simp add: near_goal_def const_defs)

lemma at_goal_fields:
  "gameState at_goal = PLAYING" "modalState at_goal = NONE"
  "dimensions at_goal = \<lparr>dim_w = 800, dim_h = 600\<rparr>"
  "keysRef at_goal = Map.empty"
  "playerRef at_goal =
     \<lparr>x = 4790, y = 236, width = 30, height = 44, vx = 0, vy = 0,
      isGrounded = False, facing = 1, jumpCount = 0, coyoteTimer = 0\<rparr>"
  "platformsRef at_goal = initial_platforms"
  "jumpBufferRef at_goal = 0"
  "enemiesRef at_goal = initial_enemies"
  "collectedRef at_goal = {}" "warningMessage at_goal = None" "submitted at_goal = []"
  "scoreRef at_goal = 0" "userId at_goal = None" "userName at_goal = Some ''  Hiram ''"
  by (simp_all add: at_goal_def place_def fresh_run_fields)

lemma at_goal_integrated:
  "playerRef (integrate at_goal) =
     \<lparr>x = 4790, y = 236.45, width = 30, height = 44, vx = 0, vy = 0.45,
      isGrounded = False, facing = 1, jumpCount = 0, coyoteTimer = 0\<rparr>"
  by (simp add: at_goal_fields integrate_def kinematics_defs Let_def const_defs)

lemma at_goal_settled:
  "playerRef (settle (integrate at_goal)) =
     \<lparr>x = 4790, y = 236, width = 30, height = 44, vx = 0, vy = 0,
      isGrounded = True, facing = 1, jumpCount = 0, coyoteTimer = 6\<rparr>"
  by (simp add: settle_def Let_def at_goal_integrated integrate_keeps at_goal_fields
      collision_defs const_defs)

lemma with_tools_same_player:
  "playerRef (integrate at_goal_with_tools) = playerRef (integrate at_goal)"
  "playerRef (settle (integrate at_goal_with_tools)) = playerRef (settle (integrate at_goal))"
  by (simp_all add: at_goal_with_tools_def integrate_def settle_def jump_buffer_def
      executeJump_def Let_def)

lemma at_goal_with_tools_fields:
  "gameState at_goal_with_tools = PLAYING" "modalState at_goal_with_tools = NONE"
  "dimensions at_goal_with_tools = \<lparr>dim_w = 800, dim_h = 600\<rparr>"
  "enemiesRef at_goal_with_tools = initial_enemies"
  "collectedRef at_goal_with_tools = {1, 2, 3}" "submitted at_goal_with_tools = []"
  "scoreRef at_goal_with_tools = 450" "score at_goal_with_tools = 450"
  "userId at_goal_with_tools = None" "userName at_goal_with_tools = Some ''  Hiram ''"
  by (simp_all add: at_goal_with_tools_def at_goal_fields at_goal_def place_def
      fresh_run_fields)

lemma submit_name_demo: "submit_name at_goal_with_tools = ''Hiram''"
  by (simp add: submit_name_def at_goal_with_tools_fields trim_def js_space_def)

theorem goal_victory_or_warning_witness:
  "gameState at_goal_with_tools = PLAYING \<and> modalState at_goal_with_tools = NONE \<and>
   frame_near_goal demo_env at_goal_with_tools \<and>
   list_all (\<lambda>i. i \<in> collectedRef at_goal_with_tools) REQUIRED_TOOL_IDS \<and>
   (\<exists>r. loop demo_env at_goal_with_tools = Inr r \<and> gameState r = VICTORY \<and>
        submitted r = [\<lparr>sub_name = ''Hiram'', sub_score = 950, sub_completed = True,
                        sub_userId = None\<rparr>]) \<and>
   gameState at_goal = PLAYING \<and> modalState at_goal = NONE \<and>
   frame_near_goal demo_env at_goal \<and>
   \<not> list_all (\<lambda>i. i \<in> collectedRef at_goal) REQUIRED_TOOL_IDS \<and>
   (\<exists>r. loop demo_env at_goal = Inr r \<and> gameState r = PLAYING \<and> submitted r = [] \<and>
        warningMessage r = Some ''The East is sealed. Recover the working tools first.'')"
proof -
  have run: "frame_runs demo_env at_goal" "frame_runs demo_env at_goal_with_tools"
    by (simp_all add: frame_runs_def demo_env_fields at_goal_fields at_goal_with_tools_fields)
  have nf: "\<not> fatal_fall (playerRef (integrate at_goal))"
    by (simp add: at_goal_integrated fatal_fall_def const_defs)
  have h1: "gameState at_goal_with_tools = PLAYING" "modalState at_goal_with_tools = NONE"
    "frame_near_goal demo_env at_goal_with_tools"
    using near_goal_frame [OF run(2)] nf initial_enemies_level at_goal_near
    by (simp_all add: at_goal_with_tools_fields with_tools_same_player at_goal_settled)
  have h2: "gameState at_goal = PLAYING" "modalState at_goal = NONE"
    "frame_near_goal demo_env at_goal"
    using near_goal_frame [OF run(1) nf] initial_enemies_level at_goal_near
    by (simp_all add: at_goal_fields at_goal_settled)
  have t1: "\<forall>i \<in> set REQUIRED_TOOL_IDS. i \<in> collectedRef at_goal_with_tools"
    by (simp add: REQUIRED_TOOL_IDS_def at_goal_with_tools_fields)
  have t2: "\<not> (\<forall>i \<in> set REQUIRED_TOOL_IDS. i \<in> collectedRef at_goal)"
    by (auto simp: REQUIRED_TOOL_IDS_def at_goal_fields)
  have v: "\<exists>r. loop demo_env at_goal_with_tools = Inr r \<and> gameState r = VICTORY \<and>
        submitted r = [\<lparr>sub_name = ''Hiram'', sub_score = 950, sub_completed = True,
                        sub_userId = None\<rparr>]"
    using goal_victory_or_warning [OF h1] t1
    by (auto simp: at_goal_with_tools_fields submit_name_demo)
  have w: "\<exists>r. loop demo_env at_goal = Inr r \<and> gameState r = PLAYING \<and> submitted r = [] \<and>
        warningMessage r = Some ''The East is sealed. Recover the working tools first.''"
    using goal_victory_or_warning [OF h2] t2
    by (auto simp: at_goal_fields truthy_str_def)
  show ?thesis
    using h1 h2 t1 t2 v w by (simp add: list_all_iff)
qed

subsection \<open>Collision resolution\<close>

lemma overlaps_axes: "overlaps a b = (overlaps_on AxisX a b \<and> overlaps_on AxisY a b)"
  by (auto simp: overlaps_def overlaps_on_def)

lemma resolve_platform_clears:
  "resolved_axis p plat = Some ax \<Longrightarrow> \<not> overlaps_on ax (resolve_platform p plat) plat"
  by (auto simp: resolved_axis_def resolve_platform_def overlaps_on_def
      split: if_splits axis.splits)

lemma resolve_platform_size:
  "width (resolve_platform p q) = width p" "height (resolve_platform p q) = height p"
  by (simp_all add: resolve_platform_def)

lemma resolve_platform_other_axis:
  "resolved_axis p q \<noteq> Some AxisX \<Longrightarrow> x (resolve_platform p q) = x p"
  "resolved_axis p q \<noteq> Some AxisY \<Longrightarrow> y (resolve_platform p q) = y p"
  by (auto simp: resolved_axis_def resolve_platform_def split: if_splits)

lemma pass_size:
  "width (foldl resolve_platform p qs) = width p \<and>
   height (foldl resolve_platform p qs) = height p"
  by (induction qs arbitrary: p) (simp_all add: resolve_platform_size)

lemma pass_keeps_x:
  "AxisX \<notin> set (axes_resolved p qs) \<Longrightarrow> x (foldl resolve_platform p qs) = x p"
proof (induction qs arbitrary: p)
  case Nil
  show ?case by simp
next
  case (Cons q qs)
  have a: "resolved_axis p q \<noteq> Some AxisX" using Cons.prems by (auto split: option.splits)
  have b: "AxisX \<notin> set (axes_resolved (resolve_platform p q) qs)" using Cons.prems by simp
  show ?case using Cons.IH [OF b] resolve_platform_other_axis(1) [OF a] by simp
qed

lemma pass_keeps_y:
  "AxisY \<notin> set (axes_resolved p qs) \<Longrightarrow> y (foldl resolve_platform p qs) = y p"
proof (induction qs arbitrary: p)
  case Nil
  show ?case by simp
next
  case (Cons q qs)
  have a: "resolved_axis p q \<noteq> Some AxisY" using Cons.prems by (auto split: option.splits)
  have b: "AxisY \<notin> set (axes_resolved (resolve_platform p q) qs)" using Cons.prems by simp
  show ?case using Cons.IH [OF b] resolve_platform_other_axis(2) [OF a] by simp
qed

lemma pass_keeps_overlap:
  assumes "ax \<notin> set (axes_resolved p qs)"
  shows "overlaps_on ax (foldl resolve_platform p qs) plat = overlaps_on ax p plat"
proof (cases ax)
  case AxisX
  then show ?thesis using pass_keeps_x [of p qs] pass_size [of p qs] assms
    by (simp add: overlaps_on_def)
next
  case AxisY
  then show ?thesis using pass_keeps_y [of p qs] pass_size [of p qs] assms
    by (simp add: overlaps_on_def)
qed

text \<open>
  C3 (as amended).  Split the platform list of a collision pass at a platform that the
  pass corrects the player against, along the axis \<open>ax\<close>.  If none of the later
  corrections of the pass is along \<open>ax\<close>, then after the whole pass the player rectangle
  does not overlap that platform along \<open>ax\<close>.  In particular this holds right after each
  single correction, and at the end of the pass for the last correction along each axis.
\<close>

theorem resolved_axis_stays_clear:
  assumes "plats = pre @ plat # post"
    and "resolved_axis (foldl resolve_platform (p\<lparr>isGrounded := False\<rparr>) pre) plat = Some ax"
    and "ax \<notin> set (axes_resolved
            (resolve_platform (foldl resolve_platform (p\<lparr>isGrounded := False\<rparr>) pre) plat) post)"
  shows "\<not> overlaps_on ax (resolve_collisions p plats) plat"
proof -
  let ?p1 = "foldl resolve_platform (p\<lparr>isGrounded := False\<rparr>) pre"
  have "resolve_collisions p plats = foldl resolve_platform (resolve_platform ?p1 plat) post"
    by (simp add: resolve_collisions_def assms(1))
  then have "overlaps_on ax (resolve_collisions p plats) plat
             = overlaps_on ax (resolve_platform ?p1 plat) plat"
    using pass_keeps_overlap [OF assms(3)] by simp
  then show ?thesis using resolve_platform_clears [OF assms(2)] by simp
qed

lemmas platforms_defs = initial_platforms_def PLATFORM_DATA_def pdef_def second_floor_def
  first_stair_def const_defs

lemmas resolve_defs = resolved_axis_def resolve_platform_def overlaps_def overlapX_def
  overlapY_def

lemma initial_platforms_nth:
  "initial_platforms ! 1 = second_floor" "initial_platforms ! 10 = first_stair"
  by (simp_all add: platforms_defs)

lemma initial_platforms_split:
  "initial_platforms = take 10 initial_platforms @ first_stair # drop 11 initial_platforms"
  by (simp add: platforms_defs)

lemma in_floor_fields:
  "keysRef in_floor = Map.empty"
  "playerRef in_floor =
     \<lparr>x = 1540, y = 289.55, width = 30, height = 44, vx = 0, vy = 0,
      isGrounded = False, facing = 1, jumpCount = 0, coyoteTimer = 0\<rparr>"
  "platformsRef in_floor = initial_platforms"
  "jumpBufferRef in_floor = 0"
  by (simp_all add: in_floor_def place_def fresh_run_fields)

lemma wedged_eval:
  "wedged = \<lparr>x = 1540, y = 290, width = 30, height = 44, vx = 0, vy = 0.45,
      isGrounded = False, facing = 1, jumpCount = 0, coyoteTimer = 0\<rparr>"
  by (simp add: wedged_def in_floor_fields integrate_def kinematics_defs world_bounds_def
      Let_def const_defs)

lemma in_floor_settled:
  "playerRef (settle (integrate in_floor)) = coyote (resolve_collisions wedged initial_platforms)"
  by (simp add: settle_def Let_def wedged_def integrate_keeps in_floor_fields
      jump_buffer_def executeJump_def coyote_def)

lemma wedged_before_floor:
  "foldl resolve_platform (wedged\<lparr>isGrounded := False\<rparr>) (take 1 initial_platforms) = wedged"
  by (simp add: platforms_defs wedged_eval resolve_defs)

lemma wedged_before_stair:
  "foldl resolve_platform (wedged\<lparr>isGrounded := False\<rparr>) (take 10 initial_platforms) =
     \<lparr>x = 1540, y = 276, width = 30, height = 44, vx = 0, vy = 0,
      isGrounded = True, facing = 1, jumpCount = 0, coyoteTimer = 0\<rparr>"
  by (simp add: wedged_eval platforms_defs resolve_defs)

lemma wedged_after_pass:
  "resolve_collisions wedged initial_platforms =
     \<lparr>x = 1540, y = 296, width = 30, height = 44, vx = 0, vy = 0,
      isGrounded = True, facing = 1, jumpCount = 0, coyoteTimer = 0\<rparr>"
  by (simp add: wedged_eval platforms_defs resolve_collisions_def resolve_defs)

theorem resolved_axis_stays_clear_witness:
  "initial_platforms = take 10 initial_platforms @ first_stair # drop 11 initial_platforms \<and>
   resolved_axis (foldl resolve_platform (wedged\<lparr>isGrounded := False\<rparr>)
      (take 10 initial_platforms)) first_stair = Some AxisY \<and>
   AxisY \<notin> set (axes_resolved
      (resolve_platform (foldl resolve_platform (wedged\<lparr>isGrounded := False\<rparr>)
         (take 10 initial_platforms)) first_stair) (drop 11 initial_platforms)) \<and>
   \<not> overlaps_on AxisY (resolve_collisions wedged initial_platforms) first_stair"
proof -
  have a: "initial_platforms = take 10 initial_platforms @ first_stair # drop 11 initial_platforms"
    by (rule initial_platforms_split)
  have b: "resolved_axis (foldl resolve_platform (wedged\<lparr>isGrounded := False\<rparr>)
      (take 10 initial_platforms)) first_stair = Some AxisY"
    unfolding wedged_before_stair by (simp add: first_stair_def resolve_defs)
  have c: "AxisY \<notin> set (axes_resolved
      (resolve_platform (foldl resolve_platform (wedged\<lparr>isGrounded := False\<rparr>)
         (take 10 initial_platforms)) first_stair) (drop 11 initial_platforms))"
    unfolding wedged_before_stair by (simp add: platforms_defs resolve_defs)
  show ?thesis using a b c resolved_axis_stays_clear [OF a b c] by simp
qed

text \<open>
  The claim as first stated fails on the level's own platforms.  The frame from
  \<open>in_floor\<close> hands its collision pass a player rectangle at (1540, 290), which reaches
  into the floor (1020, 320, 620 by 90) and into the stair
  (1500, 280, 120 by 16) above it.  The pass corrects against the floor first, along y,
  lifting the player to y = 276; then against the stair, along y again, pushing the player
  down to y = 296; at the end of the pass the player overlaps the floor along y (and along
  x) again.
\<close>

theorem collision_pass_counterexample:
  "resolved_axis (foldl resolve_platform (wedged\<lparr>isGrounded := False\<rparr>)
      (take 1 initial_platforms)) (initial_platforms ! 1) = Some AxisY \<and>
   y (resolve_collisions wedged initial_platforms) = 296 \<and>
   overlaps_on AxisY (resolve_collisions wedged initial_platforms) (initial_platforms ! 1) \<and>
   overlaps (resolve_collisions wedged initial_platforms) (initial_platforms ! 1) \<and>
   \<not> pass_clears wedged initial_platforms \<and>
   overlaps (playerRef (settle (integrate in_floor))) second_floor"
proof -
  have a: "resolved_axis (foldl resolve_platform (wedged\<lparr>isGrounded := False\<rparr>)
      (take 1 initial_platforms)) (initial_platforms ! 1) = Some AxisY"
    unfolding wedged_before_floor initial_platforms_nth
    by (simp add: wedged_eval second_floor_def resolve_defs)
  have b: "overlaps_on AxisY (resolve_collisions wedged initial_platforms) (initial_platforms ! 1)"
    unfolding wedged_after_pass initial_platforms_nth
    by (simp add: second_floor_def overlaps_on_def)
  have c: "overlaps (resolve_collisions wedged initial_platforms) (initial_platforms ! 1)"
    unfolding wedged_after_pass initial_platforms_nth
    by (simp add: second_floor_def overlaps_def)
  have len: "1 < length initial_platforms"
    by (simp add: initial_platforms_def PLATFORM_DATA_def)
  have d: "\<not> pass_clears wedged initial_platforms"
    unfolding pass_clears_def using a b len by blast
  have e: "overlaps (playerRef (settle (integrate in_floor))) second_floor"
    unfolding in_floor_settled wedged_after_pass
    by (simp add: coyote_def second_floor_def overlaps_def)
  show ?thesis using a b c d e by (simp add: wedged_after_pass)
qed

subsection \<open>Checkpoints\<close>

lemma checkpoint_fold:
  "x lc \<le> x (foldl (checkpoint_step p) lc cps) \<and>
   (foldl (checkpoint_step p) lc cps = lc \<or>
    (\<exists>cp \<in> set cps. x (foldl (checkpoint_step p) lc cps) = cp_x cp \<and> cp_x cp < x p))"
proof (induction cps arbitrary: lc)
  case Nil
  show ?case by simp
next
  case (Cons c cps)
  let ?lc' = "checkpoint_step p lc c"
  have step: "x lc \<le> x ?lc' \<and> (?lc' = lc \<or> (x ?lc' = cp_x c \<and> cp_x c < x p))"
    by (simp add: checkpoint_step_def)
  show ?case using Cons.IH [of ?lc'] step by auto
qed

lemma update_checkpoint_mono: "x lc \<le> x (update_checkpoint p lc)"
  using checkpoint_fold [of lc p CHECKPOINTS] by (simp add: update_checkpoint_def)

lemma update_checkpoint_cases:
  "x (update_checkpoint p lc) = x lc \<or> x (update_checkpoint p lc) \<in> set (passed (x p))"
  using checkpoint_fold [of lc p CHECKPOINTS]
  by (auto simp: update_checkpoint_def passed_def)

lemma checkpoint_values: "cp \<in> set CHECKPOINTS \<Longrightarrow> 140 \<le> cp_x cp"
  by (auto simp: CHECKPOINTS_def)

lemma passed_values: "v \<in> set (passed px) \<Longrightarrow> 140 \<le> v"
  using checkpoint_values by (auto simp: passed_def)

lemma loop_checkpoint:
  assumes "loop env s = Inr r"
  shows "(\<not> checks_checkpoints env s \<and> lastCheckpointRef r = lastCheckpointRef s) \<or>
         (checks_checkpoints env s \<and>
          lastCheckpointRef r =
            update_checkpoint (playerRef (integrate s)) (lastCheckpointRef s))"
proof -
  let ?s2 = "settle (integrate s)"
  have s2: "\<And>es. lastCheckpointRef (?s2\<lparr>enemiesRef := es\<rparr>) =
              update_checkpoint (playerRef (integrate s)) (lastCheckpointRef s)"
    by (simp add: settle_checkpoint integrate_keeps)
  have d1: "handleDeath env (integrate s) = Inr r \<Longrightarrow>
              lastCheckpointRef r = lastCheckpointRef s"
    using handleDeath_Inr [of env "integrate s" r] by (simp add: integrate_keeps)
  have d2: "\<And>es. handleDeath env (?s2\<lparr>enemiesRef := es\<rparr>) = Inr r \<Longrightarrow>
              lastCheckpointRef r =
                update_checkpoint (playerRef (integrate s)) (lastCheckpointRef s)"
    using handleDeath_Inr s2 by metis
  have o: "\<And>ob. lastCheckpointRef (orb_hit ob ?s2) =
              update_checkpoint (playerRef (integrate s)) (lastCheckpointRef s)"
    by (simp add: orb_hit_keeps settle_checkpoint integrate_keeps)
  have g: "\<And>es. lastCheckpointRef (goal_and_camera (?s2\<lparr>enemiesRef := es\<rparr>)) =
              update_checkpoint (playerRef (integrate s)) (lastCheckpointRef s)"
    by (simp add: goal_and_camera_keeps s2)
  have n1: "\<not> frame_runs env s \<Longrightarrow> \<not> checks_checkpoints env s"
    by (simp add: checks_checkpoints_def)
  have n2: "fatal_fall (playerRef (integrate s)) \<Longrightarrow> \<not> checks_checkpoints env s"
    by (simp add: checks_checkpoints_def)
  from loop_cases [OF assms] show ?thesis
    using d1 d2 o g n1 n2 by (elim disjE conjE exE) auto
qed

lemma step_checkpoint:
  assumes "\<not> calls_reset e s" and "step e s = Inr r"
  shows "x (lastCheckpointRef s) \<le> x (lastCheckpointRef r) \<and>
         (x (lastCheckpointRef r) = x (lastCheckpointRef s) \<or>
          x (lastCheckpointRef r) \<in> set (exceeded_by e s))"
proof (cases e)
  case (Frame env)
  then have l: "loop env s = Inr r" using assms(2) by simp
  show ?thesis
    using loop_checkpoint [OF l] Frame
      update_checkpoint_mono [of "lastCheckpointRef s" "playerRef (integrate s)"]
      update_checkpoint_cases [of "playerRef (integrate s)" "lastCheckpointRef s"]
    by auto
next
  case (KeyDown c)
  then show ?thesis
    using assms
    by (auto simp: handleKeyDown_def executeJump_def Let_def split: if_splits)
next
  case (KeyUp c)
  then show ?thesis
    using assms by (auto simp: handleKeyUp_def halve_rise_def Let_def split: if_splits)
next
  case (InputStart k)
  then show ?thesis
    using assms
    by (auto simp: handleInputStart_def executeJump_def Let_def split: if_splits)
next
  case (InputEnd k)
  then show ?thesis
    using assms by (auto simp: handleInputEnd_def halve_rise_def Let_def split: if_splits)
next
  case LoreNext
  then show ?thesis
    using assms
    by (auto simp: lore_next_click_def handleLoreContinue_def Let_def collectOrb_def
        split: if_splits option.splits)
next
  case (QuizAnswer a)
  then show ?thesis
    using assms
    by (auto simp: quiz_answer_click_def handleQuizCorrect_def handleQuizIncorrect_def
        collectOrb_def Let_def split: if_splits option.splits)
next
  case (GraveAnswer a)
  then show ?thesis
    using assms by (auto simp: grave_answer_click_def split: if_splits option.splits)
next
  case GraveReturn
  then show ?thesis
    using assms
    by (auto simp: grave_return_click_def respawnAtCheckpoint_def resetPlayer_def Let_def
        split: if_splits)
next
  case GraveBeginAgain
  then show ?thesis
    using assms by (auto simp: grave_begin_again_click_def split: if_splits)
qed (use assms in \<open>auto split: if_splits\<close>)

lemma run_checkpoint:
  assumes "one_run s evs" and "exec s evs = Inr r"
  shows "x (lastCheckpointRef s) \<le> x (lastCheckpointRef r) \<and>
         (x (lastCheckpointRef r) = x (lastCheckpointRef s) \<or>
          x (lastCheckpointRef r) \<in> set (exceeded s evs))"
  using assms
proof (induction evs arbitrary: s)
  case Nil
  then show ?case by simp
next
  case (Cons e evs)
  obtain m where m: "step e s = Inr m" and rest: "exec m evs = Inr r"
    using Cons.prems(2) by (auto split: sum.splits)
  have nr: "\<not> calls_reset e s" and run: "one_run m evs"
    using Cons.prems(1) m by simp_all
  have ex: "exceeded s (e # evs) = exceeded_by e s @ exceeded m evs"
    using m by simp
  show ?case
    using step_checkpoint [OF nr m] Cons.IH [OF run rest] unfolding ex by auto
qed

lemma exec_append:
  "exec s (evs1 @ evs2) = (case exec s evs1 of Inl err \<Rightarrow> Inl err | Inr m \<Rightarrow> exec m evs2)"
  by (induction evs1 arbitrary: s) (auto split: sum.splits)

lemma one_run_append:
  "one_run s (evs1 @ evs2) \<Longrightarrow> exec s evs1 = Inr m \<Longrightarrow> one_run s evs1 \<and> one_run m evs2"
  by (induction evs1 arbitrary: s) (auto split: sum.splits)

lemma exceeded_values: "v \<in> set (exceeded s evs) \<Longrightarrow> 140 \<le> v"
proof (induction evs arbitrary: s)
  case Nil
  then show ?case by simp
next
  case (Cons e evs)
  have "v \<in> set (exceeded_by e s) \<Longrightarrow> 140 \<le> v"
    by (cases e) (auto dest: passed_values split: if_splits)
  then show ?case using Cons by (auto split: sum.splits)
qed

text \<open>
  C6.  Take any events of one run (none of them calls \<open>resetGame\<close>), frames and
  input in any order, executed without an exception from a state \<open>s\<close> to a state \<open>r\<close>.
  Then \<open>lastCheckpoint.x\<close> does not decrease from \<open>s\<close> to \<open>r\<close>, nor between \<open>s\<close>,
  any state \<open>m\<close> on the way, and \<open>r\<close>.  If the run started at the level start
  (\<open>lastCheckpoint.x = 60\<close>, as \<open>resetGame\<close> leaves it), then \<open>lastCheckpoint.x\<close>
  is at least 60, it is still 60 while the player's x has exceeded no checkpoint, and
  otherwise it is at most the largest checkpoint x that the player's x has exceeded at
  the checkpoint check of some frame of the run.
\<close>

theorem last_checkpoint_monotone:
  assumes "one_run s evs" and "exec s evs = Inr r"
  shows "x (lastCheckpointRef s) \<le> x (lastCheckpointRef r) \<and>
         (\<forall>evs1 evs2 m. evs = evs1 @ evs2 \<and> exec s evs1 = Inr m \<longrightarrow>
            x (lastCheckpointRef s) \<le> x (lastCheckpointRef m) \<and>
            x (lastCheckpointRef m) \<le> x (lastCheckpointRef r)) \<and>
         (x (lastCheckpointRef s) = 60 \<longrightarrow>
            60 \<le> x (lastCheckpointRef r) \<and>
            (exceeded s evs = [] \<longrightarrow> x (lastCheckpointRef r) = 60) \<and>
            (exceeded s evs \<noteq> [] \<longrightarrow>
               x (lastCheckpointRef r) \<le> Max (set (exceeded s evs))))"
proof -
  note main = run_checkpoint [OF assms]
  have mid: "\<forall>evs1 evs2 m. evs = evs1 @ evs2 \<and> exec s evs1 = Inr m \<longrightarrow>
            x (lastCheckpointRef s) \<le> x (lastCheckpointRef m) \<and>
            x (lastCheckpointRef m) \<le> x (lastCheckpointRef r)"
  proof (intro allI impI)
    fix evs1 evs2 m
    assume a: "evs = evs1 @ evs2 \<and> exec s evs1 = Inr m"
    then have runs: "one_run s evs1" "one_run m evs2"
      using one_run_append assms(1) by blast+
    have rest: "exec m evs2 = Inr r" using a assms(2) by (simp add: exec_append)
    show "x (lastCheckpointRef s) \<le> x (lastCheckpointRef m) \<and>
          x (lastCheckpointRef m) \<le> x (lastCheckpointRef r)"
      using run_checkpoint [OF runs(1)] run_checkpoint [OF runs(2) rest] a by blast
  qed
  have start: "x (lastCheckpointRef s) = 60 \<longrightarrow>
            60 \<le> x (lastCheckpointRef r) \<and>
            (exceeded s evs = [] \<longrightarrow> x (lastCheckpointRef r) = 60) \<and>
            (exceeded s evs \<noteq> [] \<longrightarrow>
               x (lastCheckpointRef r) \<le> Max (set (exceeded s evs)))"
  proof
    assume s60: "x (lastCheckpointRef s) = 60"
    have a: "60 \<le> x (lastCheckpointRef r)" using main s60 by simp
    have b: "exceeded s evs = [] \<longrightarrow> x (lastCheckpointRef r) = 60" using main s60 by auto
    have c: "exceeded s evs \<noteq> [] \<longrightarrow> x (lastCheckpointRef r) \<le> Max (set (exceeded s evs))"
    proof
      assume ne: "exceeded s evs \<noteq> []"
      then obtain v where v: "v \<in> set (exceeded s evs)" by (cases "exceeded s evs") auto
      have vmax: "v \<le> Max (set (exceeded s evs))" using v by simp
      show "x (lastCheckpointRef r) \<le> Max (set (exceeded s evs))"
      proof (cases "x (lastCheckpointRef r) = x (lastCheckpointRef s)")
        case True
        then show ?thesis using s60 exceeded_values [OF v] vmax by simp
      next
        case False
        then have "x (lastCheckpointRef r) \<in> set (exceeded s evs)" using main by blast
        then show ?thesis by simp
      qed
    qed
    show "60 \<le> x (lastCheckpointRef r) \<and>
            (exceeded s evs = [] \<longrightarrow> x (lastCheckpointRef r) = 60) \<and>
            (exceeded s evs \<noteq> [] \<longrightarrow>
               x (lastCheckpointRef r) \<le> Max (set (exceeded s evs)))"
      using a b c by blast
  qed
  show ?thesis using main mid start by blast
qed

lemma before_checkpoint_fields:
  "gameState before_checkpoint = PLAYING" "modalState before_checkpoint = NONE"
  "dimensions before_checkpoint = \<lparr>dim_w = 800, dim_h = 600\<rparr>"
  "keysRef before_checkpoint = Map.empty"
  "playerRef before_checkpoint =
     \<lparr>x = 139.5, y = 276, width = 30, height = 44, vx = 0, vy = 0,
      isGrounded = False, facing = 1, jumpCount = 0, coyoteTimer = 0\<rparr>"
  "lastCheckpointRef before_checkpoint = \<lparr>x = 60, y = 220\<rparr>"
  by (simp_all add: before_checkpoint_def place_def fresh_run_fields)

lemma key_right:
  "handleKeyDown ''ArrowRight'' before_checkpoint =
     before_checkpoint\<lparr>keysRef := [''ArrowRight'' \<mapsto> True]\<rparr>"
  by (simp add: handleKeyDown_def jump_code_def before_checkpoint_fields Let_def)

lemma key_right_integrated:
  "playerRef (integrate (before_checkpoint\<lparr>keysRef := [''ArrowRight'' \<mapsto> True]\<rparr>)) =
     \<lparr>x = 140.172, y = 276.45, width = 30, height = 44, vx = 0.672, vy = 0.45,
      isGrounded = False, facing = 1, jumpCount = 0, coyoteTimer = 0\<rparr>"
  by (simp add: before_checkpoint_fields integrate_def kinematics_defs Let_def const_defs)

lemma key_right_checks:
  "checks_checkpoints demo_env (before_checkpoint\<lparr>keysRef := [''ArrowRight'' \<mapsto> True]\<rparr>)"
  by (simp add: checks_checkpoints_def frame_runs_def demo_env_fields
      before_checkpoint_fields key_right_integrated fatal_fall_def const_defs)

theorem last_checkpoint_monotone_witness:
  "one_run before_checkpoint pass_events \<and>
   x (lastCheckpointRef before_checkpoint) = 60 \<and>
   exceeded before_checkpoint pass_events = [140] \<and>
   (\<exists>r. exec before_checkpoint pass_events = Inr r \<and>
        lastCheckpointRef r = \<lparr>x = 140, y = 268\<rparr> \<and>
        x (lastCheckpointRef before_checkpoint) \<le> x (lastCheckpointRef r) \<and>
        x (lastCheckpointRef r) \<le> Max (set (exceeded before_checkpoint pass_events)))"
proof -
  let ?s1 = "before_checkpoint\<lparr>keysRef := [''ArrowRight'' \<mapsto> True]\<rparr>"
  obtain r where r: "loop demo_env ?s1 = Inr r"
    using loop_total [of demo_env ?s1] by (auto simp: demo_env_fields)
  have ex: "exec before_checkpoint pass_events = Inr r"
    by (simp add: pass_events_def key_right r)
  have run: "one_run before_checkpoint pass_events"
    by (simp add: pass_events_def key_right r)
  have start: "x (lastCheckpointRef before_checkpoint) = 60"
    by (simp add: before_checkpoint_fields)
  have exc: "exceeded before_checkpoint pass_events = [140]"
    by (simp add: pass_events_def key_right r key_right_checks key_right_integrated
        passed_def CHECKPOINTS_def)
  have "lastCheckpointRef r =
          update_checkpoint (playerRef (integrate ?s1)) (lastCheckpointRef ?s1)"
    using loop_checkpoint [OF r] key_right_checks by simp
  then have lc: "lastCheckpointRef r = \<lparr>x = 140, y = 268\<rparr>"
    by (simp add: key_right_integrated before_checkpoint_fields update_checkpoint_def
        checkpoint_step_def CHECKPOINTS_def const_defs)
  have "x (lastCheckpointRef before_checkpoint) \<le> x (lastCheckpointRef r) \<and>
        x (lastCheckpointRef r) \<le> Max (set (exceeded before_checkpoint pass_events))"
    using last_checkpoint_monotone [OF run ex] start exc by simp
  then show ?thesis using run start exc ex lc by blast
qed

end
